theory Spec2Isabelle
  imports Main "HOL-Library.List_Lexorder"
begin


section \<open>Python strings\<close>

text \<open>
  A Python \<open>str\<close> is a sequence of Unicode code points; it is modelled as the list of
  their numbers, so that \<open>len\<close>, slicing and \<open>strip\<close> count what Python counts.
  \<open>S\<close> turns an ASCII literal into such a string.
\<close>

type_synonym pystr = "nat list"

definition S :: "string \<Rightarrow> pystr" where
  "S cs = map of_char cs"

definition NUL :: nat where "NUL = 0"
definition LF :: nat where "LF = 10"
definition CR :: nat where "CR = 13"
definition SPACE :: nat where "SPACE = 32"

text \<open>
  The characters \<open>str.strip()\<close> removes when called without argument: those for which
  \<open>str.isspace\<close> holds (CPython's \<open>_PyUnicode_IsWhitespace\<close>).
\<close>

definition is_space :: "nat \<Rightarrow> bool" where
  "is_space c \<longleftrightarrow>
     (9 \<le> c \<and> c \<le> 13) \<or> (28 \<le> c \<and> c \<le> 32) \<or> c = 133 \<or> c = 160 \<or> c = 5760 \<or>
     (8192 \<le> c \<and> c \<le> 8202) \<or> c = 8232 \<or> c = 8233 \<or> c = 8239 \<or> c = 8287 \<or> c = 12288"

definition lstrip :: "pystr \<Rightarrow> pystr" where
  "lstrip s = dropWhile is_space s"

definition rstrip :: "pystr \<Rightarrow> pystr" where
  "rstrip s = rev (dropWhile is_space (rev s))"

definition strip :: "pystr \<Rightarrow> pystr" where
  "strip s = rstrip (lstrip s)"

text \<open>
  \<open>s.replace(old, new)\<close>: every non-overlapping occurrence of \<open>old\<close>, found from the
  left, is replaced. With an empty \<open>old\<close> Python puts \<open>new\<close> before every character
  and at the end.
\<close>

function py_replace :: "pystr \<Rightarrow> pystr \<Rightarrow> pystr \<Rightarrow> pystr" where
  "py_replace old new [] = (if old = [] then new else [])"
| "py_replace old new (c # cs) =
     (if old = [] then new @ c # py_replace old new cs
      else if take (length old) (c # cs) = old
        then new @ py_replace old new (drop (length old) (c # cs))
        else c # py_replace old new cs)"
  by pat_completeness auto
termination
  by (relation "measure (\<lambda>(old, new, s). length s)") auto

section \<open>Text normalisation (file\_parsers.py)\<close>

text \<open>\<open>re.sub(r"\r+", "\n", s)\<close>: every maximal run of carriage returns becomes one newline.\<close>

function sub_cr_runs :: "pystr \<Rightarrow> pystr" where
  "sub_cr_runs [] = []"
| "sub_cr_runs (c # cs) =
     (if c = CR then LF # sub_cr_runs (dropWhile (\<lambda>x. x = CR) cs)
      else c # sub_cr_runs cs)"
  by pat_completeness auto
termination
  by (relation "measure length") (auto simp: less_Suc_eq_le length_dropWhile_le)

text \<open>
  \<open>re.sub(r"\n{3,}", "\n\n", s)\<close>: the scan goes left to right; where a run of three or
  more newlines starts, the whole run (the match is greedy) becomes two newlines;
  elsewhere the character is copied.
\<close>

function sub_newline_runs :: "pystr \<Rightarrow> pystr" where
  "sub_newline_runs [] = []"
| "sub_newline_runs (c # cs) =
     (if 3 \<le> length (takeWhile (\<lambda>x. x = LF) (c # cs))
      then LF # LF # sub_newline_runs (dropWhile (\<lambda>x. x = LF) cs)
      else c # sub_newline_runs cs)"
  by pat_completeness auto
termination
  by (relation "measure length") (auto simp: less_Suc_eq_le length_dropWhile_le)

text \<open>
  \<open>normalize_text\<close>. Its argument is a \<open>str\<close>, for which \<open>text or ""\<close> is the
  argument itself.
\<close>

definition normalize_text :: "pystr \<Rightarrow> pystr" where
  "normalize_text text' =
     (let cleaned = py_replace [NUL] [SPACE] text';
          cleaned = sub_cr_runs cleaned;
          cleaned = sub_newline_runs cleaned
      in strip cleaned)"

text \<open>No suffix starts with three newlines.\<close>

fun no_long_run :: "pystr \<Rightarrow> bool" where
  "no_long_run [] = True"
| "no_long_run (c # cs) = (length (takeWhile (\<lambda>x. x = LF) (c # cs)) \<le> 2 \<and> no_long_run cs)"

section \<open>Python values\<close>

text \<open>
  A \<open>float\<close> is a binary fraction \<open>m * 2 ^ e\<close>, an infinity or a NaN (\<open>json.loads\<close>
  accepts \<open>Infinity\<close>, \<open>-Infinity\<close> and \<open>NaN\<close>).
\<close>

datatype py_float = Finite int int | PosInf | NegInf | NaN

text \<open>
  What \<open>json.loads\<close> returns. A \<open>dict\<close> is the list of its items in insertion order;
  its keys are distinct, and a key is looked up with \<open>map_of\<close>.
\<close>

datatype json =
    JNull
  | JBool bool
  | JInt int
  | JFloat py_float
  | JStr pystr
  | JList "json list"
  | JDict "(pystr \<times> json) list"

text \<open>
  The exceptions a request can end with. \<open>HTTPException\<close> carries the status code and the
  detail; the detail's message, a fixed Korean sentence in the source, is named by a
  constructor, with the data the source attaches to it.
\<close>

datatype detail =
    GeminiCallFailed
  | JsonParseFailed pystr
  | QuestionsArrayRequired
  | NoQuestionsFound
  | PageSummaryJsonParseFailed pystr
  | UploadNotFound
  | NoPagesFound
  | NoSummarizableContent
  | UnsupportedExtension pystr
  | SourceTextTooShort
  | NoTextExtracted
  | NoteNotFound

datatype exn =
    HTTPException int detail
  | AttributeError
  | IndexError
  | TypeError
  | ValueError
  | OverflowError
  | UnicodeDecodeError
  | LibraryError

text \<open>Truth value of an object, as \<open>if x\<close>, \<open>not x\<close> and \<open>x or y\<close> test it.\<close>

fun truthy :: "json \<Rightarrow> bool" where
  "truthy JNull = False"
| "truthy (JBool b) = b"
| "truthy (JInt i) = (i \<noteq> 0)"
| "truthy (JFloat (Finite m e)) = (m \<noteq> 0)"
| "truthy (JFloat f) = True"
| "truthy (JStr s) = (s \<noteq> [])"
| "truthy (JList xs) = (xs \<noteq> [])"
| "truthy (JDict kvs) = (kvs \<noteq> [])"

definition py_or :: "json \<Rightarrow> json \<Rightarrow> json" where
  "py_or a b = (if truthy a then a else b)"

text \<open>\<open>d.get(key)\<close> and \<open>d.get(key, default)\<close> on the items of a dict.\<close>

definition get :: "(pystr \<times> json) list \<Rightarrow> pystr \<Rightarrow> json" where
  "get kvs key = (case map_of kvs key of None \<Rightarrow> JNull | Some v \<Rightarrow> v)"

definition get_default :: "(pystr \<times> json) list \<Rightarrow> pystr \<Rightarrow> json \<Rightarrow> json" where
  "get_default kvs key d = (case map_of kvs key of None \<Rightarrow> d | Some v \<Rightarrow> v)"

text \<open>
  \<open>str(n)\<close> for an integer.
\<close>

function digits10 :: "nat \<Rightarrow> pystr" where
  "digits10 n = (if n < 10 then [48 + n] else digits10 (n div 10) @ [48 + n mod 10])"
  by pat_completeness auto
termination
  by (relation "measure id") auto

definition str_int :: "int \<Rightarrow> pystr" where
  "str_int i = (if i < 0 then 45 # digits10 (nat (- i)) else digits10 (nat i))"

section \<open>The environment of a request\<close>

text \<open>
  The remote model answers a prompt with a text, or the call raises (no API key, a
  transport or service failure).
\<close>

datatype response = Raises | Text pystr

text \<open>
  The four prompts are fixed templates around the values below; the remote model sees
  these values only. A window prompt lists, for each page of the window, its index, its
  label, the outline, the non-empty key points and the study question.
\<close>

datatype prompt =
    TextQuizPrompt pystr int pystr
  | FileQuizPrompt pystr int
  | PageSummaryPrompt pystr pystr
  | WindowPrompt "(int \<times> pystr \<times> pystr \<times> pystr list \<times> pystr) list"

type_synonym trace = "(prompt \<times> response) list"

text \<open>
  What the code takes from the Python library and from outside, none of it defined in the
  repository:
  \<^item> \<open>json_loads\<close>: \<open>json.loads\<close>, \<open>None\<close> for \<open>JSONDecodeError\<close>;
  \<^item> \<open>py_repr\<close>: \<open>str(x)\<close> of an object that is not a string;
  \<^item> \<open>unicode_decimal\<close>: the value of a non-ASCII decimal digit;
  \<^item> \<open>int_max_str_digits\<close>: the limit of \<open>int(str)\<close> on the number of digits (0: none);
  \<^item> \<open>path_name\<close>: \<open>Path(file_id).name\<close>;
  \<^item> \<open>sha256_hexdigest\<close>: \<open>hashlib.sha256(s.encode("utf-8")).hexdigest()\<close>;
  \<^item> \<open>remote\<close>: the answer of the remote model to a prompt, after the calls made so far;
  \<^item> \<open>utc_now\<close>: \<open>datetime.now(timezone.utc).isoformat()\<close> at the request's one
    reading of the clock;
  \<^item> \<open>quiz_id\<close>: the id the quiz store gives to the record it stores after \<open>n\<close>
    others.
\<close>

record env =
  json_loads :: "pystr \<Rightarrow> json option"
  py_repr :: "json \<Rightarrow> pystr"
  unicode_decimal :: "nat \<Rightarrow> nat option"
  int_max_str_digits :: nat
  path_name :: "pystr \<Rightarrow> pystr"
  sha256_hexdigest :: "pystr \<Rightarrow> pystr"
  remote :: "trace \<Rightarrow> prompt \<Rightarrow> response"
  utc_now :: pystr
  quiz_id :: "nat \<Rightarrow> pystr"

definition str_of :: "env \<Rightarrow> json \<Rightarrow> pystr" where
  "str_of env v = (case v of JStr s \<Rightarrow> s | _ \<Rightarrow> py_repr env v)"

text \<open>
  \<open>int(x)\<close>. A string is stripped, may start with a sign, and is a sequence of decimal
  digits with single underscores between them. An \<open>int\<close> is returned as it is, a
  \<open>bool\<close> as 0 or 1, a finite float truncated towards zero; NaN and the strings that
  are no number raise \<open>ValueError\<close>, the other objects \<open>TypeError\<close>, an infinity
  \<open>OverflowError\<close>.
\<close>

definition digit_value :: "env \<Rightarrow> nat \<Rightarrow> nat option" where
  "digit_value env c =
     (if 48 \<le> c \<and> c \<le> 57 then Some (c - 48)
      else if c < 128 then None
      else unicode_decimal env c)"

fun digits_of :: "env \<Rightarrow> pystr \<Rightarrow> nat list option" where
  "digits_of env [] = None"
| "digits_of env [c] = map_option (\<lambda>d. [d]) (digit_value env c)"
| "digits_of env (c # c' # cs) =
     (case digit_value env c of
        None \<Rightarrow> None
      | Some d \<Rightarrow>
          if c' = 95 then map_option ((#) d) (digits_of env cs)
          else map_option ((#) d) (digits_of env (c' # cs)))"

definition int_of_str :: "env \<Rightarrow> pystr \<Rightarrow> int option" where
  "int_of_str env s =
     (case strip s of
        [] \<Rightarrow> None
      | c # cs \<Rightarrow>
          let negative = (c = 45);
              body = (if c = 45 \<or> c = 43 then cs else c # cs)
          in case digits_of env body of
               None \<Rightarrow> None
             | Some ds \<Rightarrow>
                 if 0 < int_max_str_digits env \<and> int_max_str_digits env < length ds then None
                 else let v = foldl (\<lambda>a d. 10 * a + int d) 0 ds
                      in Some (if negative then - v else v))"

definition trunc_float :: "int \<Rightarrow> int \<Rightarrow> int" where
  "trunc_float m e =
     (if 0 \<le> e then m * 2 ^ nat e
      else if 0 \<le> m then m div 2 ^ nat (- e)
      else - ((- m) div 2 ^ nat (- e)))"

fun py_int :: "env \<Rightarrow> json \<Rightarrow> exn + int" where
  "py_int env (JInt i) = Inr i"
| "py_int env (JBool b) = Inr (if b then 1 else 0)"
| "py_int env (JFloat (Finite m e)) = Inr (trunc_float m e)"
| "py_int env (JFloat NaN) = Inl ValueError"
| "py_int env (JFloat f) = Inl OverflowError"
| "py_int env (JStr s) = (case int_of_str env s of None \<Rightarrow> Inl ValueError | Some i \<Rightarrow> Inr i)"
| "py_int env v = Inl TypeError"

section \<open>The remote call (main.py)\<close>

text \<open>
  \<open>generate_with_gemini\<close>. The call is recorded in the trace. A call that raises and an
  answer without text both end in the \<open>except Exception\<close> clause; otherwise the code
  fences are removed and the text is stripped (\<open>clean_answer\<close>).
\<close>

definition clean_answer :: "pystr \<Rightarrow> pystr" where
  "clean_answer raw =
     strip (py_replace [96, 96, 96] [] (py_replace [96, 96, 96, 106, 115, 111, 110] [] raw))"

definition generate_with_gemini :: "env \<Rightarrow> prompt \<Rightarrow> trace \<Rightarrow> (exn + pystr) \<times> trace" where
  "generate_with_gemini env prompt tr =
     (let r = remote env tr prompt;
          tr' = tr @ [(prompt, r)]
      in case r of
           Raises \<Rightarrow> (Inl (HTTPException 500 GeminiCallFailed), tr')
         | Text raw \<Rightarrow>
             if raw = [] then (Inl (HTTPException 500 GeminiCallFailed), tr')
             else (Inr (clean_answer raw), tr'))"

section \<open>Pages and their summaries (main.py)\<close>

record chunk =
  index :: int
  label :: pystr
  text' :: pystr

record page_summary =
  outline :: pystr
  keyPoints :: "pystr list"
  studyQuestion :: pystr

record page = chunk +
  summary :: page_summary

definition MAX_SOURCE_CHARS :: nat where "MAX_SOURCE_CHARS = 8000"
definition MAX_PAGE_PROMPT_CHARS :: nat where "MAX_PAGE_PROMPT_CHARS = 3500"
definition MAX_PAGE_TEXT_CHARS :: nat where "MAX_PAGE_TEXT_CHARS = 6000"

text \<open>
  \<open>str.splitlines()\<close>: the text is cut at every line boundary (a carriage return
  followed by a newline is one boundary); no empty last line is produced.
\<close>

definition is_linebreak :: "nat \<Rightarrow> bool" where
  "is_linebreak c \<longleftrightarrow>
     (10 \<le> c \<and> c \<le> 13) \<or> (28 \<le> c \<and> c \<le> 30) \<or> c = 133 \<or> c = 8232 \<or> c = 8233"

fun splitlines_from :: "pystr \<Rightarrow> pystr \<Rightarrow> pystr list" where
  "splitlines_from cur [] = (if cur = [] then [] else [cur])"
| "splitlines_from cur [c] = (if is_linebreak c then [cur] else [cur @ [c]])"
| "splitlines_from cur (c # d # ds) =
     (if is_linebreak c
      then (if c = CR \<and> d = LF then cur # splitlines_from [] ds
            else cur # splitlines_from [] (d # ds))
      else splitlines_from (cur @ [c]) (d # ds))"

definition splitlines :: "pystr \<Rightarrow> pystr list" where
  "splitlines s = splitlines_from [] s"

text \<open>
  The comprehension \<open>[str(item).strip() for item in xs if str(item).strip()]\<close>.
\<close>

definition stripped_nonempty :: "env \<Rightarrow> json list \<Rightarrow> pystr list" where
  "stripped_nonempty env xs = map (\<lambda>item. strip (str_of env item))
                                (filter (\<lambda>item. strip (str_of env item) \<noteq> []) xs)"

text \<open>
  \<open>_parse_page_summary\<close>. Text that is no JSON raises the HTTP error; \<open>data.get\<close> on
  a value that is no dict raises \<open>AttributeError\<close>.
\<close>

definition parse_page_summary :: "env \<Rightarrow> pystr \<Rightarrow> exn + page_summary" where
  "parse_page_summary env raw =
     (case json_loads env raw of
        None \<Rightarrow> Inl (HTTPException 500 (PageSummaryJsonParseFailed raw))
      | Some (JDict data) \<Rightarrow>
          let outline = strip (str_of env
                (py_or (get data (S ''outline'')) (py_or (get data (S ''summary'')) (JStr []))));
              key_points_raw =
                py_or (get data (S ''keyPoints''))
                  (py_or (get data (S ''bullets'')) (py_or (get data (S ''details'')) (JList [])));
              key_points =
                (case key_points_raw of
                   JStr s \<Rightarrow> map strip (filter (\<lambda>item. strip item \<noteq> []) (splitlines s))
                 | JList xs \<Rightarrow> stripped_nonempty env xs
                 | _ \<Rightarrow> []);
              key_points = take 5 key_points;
              study_question = strip (str_of env
                (py_or (get data (S ''studyQuestion'')) (py_or (get data (S ''quiz'')) (JStr []))))
          in Inr \<lparr>outline = outline, keyPoints = key_points, studyQuestion = study_question\<rparr>
      | Some _ \<Rightarrow> Inl AttributeError)"

definition summarize_single_page ::
  "env \<Rightarrow> pystr \<Rightarrow> pystr \<Rightarrow> trace \<Rightarrow> (exn + page_summary) \<times> trace" where
  "summarize_single_page env lbl txt tr =
     (case generate_with_gemini env (PageSummaryPrompt lbl txt) tr of
        (Inl e, tr') \<Rightarrow> (Inl e, tr')
      | (Inr raw, tr') \<Rightarrow> (parse_page_summary env raw, tr'))"

text \<open>\<open>_clip_text\<close>; the marker is a space and an ellipsis (U+2026).\<close>

definition clip_text :: "pystr \<Rightarrow> nat \<Rightarrow> pystr" where
  "clip_text v limit =
     (let txt = strip v
      in if length txt \<le> limit then txt else rstrip (take limit txt) @ [32, 8230])"

section \<open>Windows (main.py)\<close>

record window =
  startPage :: int
  endPage :: int
  pageIndexes :: "int list"
  markdown :: pystr

text \<open>
  \<open>xs[start:end]\<close>: a negative bound counts from the end, and both bounds are cut to the
  list.
\<close>

definition slice_bound :: "nat \<Rightarrow> int \<Rightarrow> nat" where
  "slice_bound n i = (if i < 0 then nat (max 0 (int n + i)) else min n (nat i))"

definition py_slice :: "'a list \<Rightarrow> int \<Rightarrow> int \<Rightarrow> 'a list" where
  "py_slice xs start end' =
     drop (slice_bound (length xs) start) (take (slice_bound (length xs) end') xs)"

text \<open>
  \<open>_build_window_prompt\<close>: what the template is filled with. A page made by the request
  always has a summary, so \<open>page.get("summary") or {}\<close> is that summary.
\<close>

definition build_window_prompt :: "page list \<Rightarrow> prompt" where
  "build_window_prompt window_pages =
     WindowPrompt (map (\<lambda>p. (index p, label p, outline (summary p),
                              filter (\<lambda>item. item \<noteq> []) (keyPoints (summary p)),
                              studyQuestion (summary p))) window_pages)"

definition summarize_window_block :: "env \<Rightarrow> page list \<Rightarrow> trace \<Rightarrow> (exn + pystr) \<times> trace" where
  "summarize_window_block env window_pages tr =
     (case generate_with_gemini env (build_window_prompt window_pages) tr of
        (Inl e, tr') \<Rightarrow> (Inl e, tr')
      | (Inr raw, tr') \<Rightarrow> (Inr (strip raw), tr'))"

text \<open>
  The dict appended for a window; \<open>window_pages[0]\<close> raises \<open>IndexError\<close> on an empty
  list.
\<close>

definition make_window :: "page list \<Rightarrow> pystr \<Rightarrow> exn + window" where
  "make_window window_pages md =
     (case window_pages of
        [] \<Rightarrow> Inl IndexError
      | _ \<Rightarrow> Inr \<lparr>startPage = index (hd window_pages),
                 endPage = index (last window_pages),
                 pageIndexes = map index window_pages,
                 markdown = md\<rparr>)"

text \<open>
  The loop of \<open>_summarize_windows\<close> over \<open>range(len(pages))\<close>, with the set \<open>seen\<close> and
  the list \<open>windows\<close> it updates.
\<close>

fun windows_loop ::
  "env \<Rightarrow> page list \<Rightarrow> int \<Rightarrow> int \<Rightarrow> nat list \<Rightarrow> (int \<times> int) set \<Rightarrow> window list \<Rightarrow> trace
     \<Rightarrow> (exn + window list) \<times> trace" where
  "windows_loop env pages left right [] seen windows tr = (Inr windows, tr)"
| "windows_loop env pages left right (idx # rest) seen windows tr =
     (let start = max 0 (int idx - left);
          end' = min (int (length pages)) (int idx + right + 1)
      in if end' - start \<le> 0 then windows_loop env pages left right rest seen windows tr
         else if (start, end') \<in> seen then windows_loop env pages left right rest seen windows tr
         else
           let window_pages = py_slice pages start end'
           in case summarize_window_block env window_pages tr of
                (Inl e, tr') \<Rightarrow> (Inl e, tr')
              | (Inr md, tr') \<Rightarrow>
                  (case make_window window_pages md of
                     Inl e \<Rightarrow> (Inl e, tr')
                   | Inr w \<Rightarrow>
                       windows_loop env pages left right rest
                         (insert (start, end') seen) (windows @ [w]) tr'))"

text \<open>\<open>_summarize_windows\<close>; \<open>list.sort\<close> is stable, as \<open>sort_key\<close> is.\<close>

definition summarize_windows ::
  "env \<Rightarrow> page list \<Rightarrow> int \<Rightarrow> trace \<Rightarrow> (exn + window list) \<times> trace" where
  "summarize_windows env pages window_size tr =
     (if pages = [] then (Inr [], tr)
      else
        let clamped_size = max 1 (min window_size (int (length pages)));
            left = clamped_size div 2;
            right = clamped_size - left - 1
        in case windows_loop env pages left right [0..<length pages] {} [] tr of
             (Inl e, tr') \<Rightarrow> (Inl e, tr')
           | (Inr windows, tr') \<Rightarrow> (Inr (sort_key startPage windows), tr'))"

text \<open>\<open>_merge_markdown\<close>.\<close>

fun join :: "pystr \<Rightarrow> pystr list \<Rightarrow> pystr" where
  "join sep [] = []"
| "join sep [x] = x"
| "join sep (x # y # ys) = x @ sep @ join sep (y # ys)"

definition merge_markdown :: "window list \<Rightarrow> pystr" where
  "merge_markdown windows =
     (let parts = map (\<lambda>item. strip (markdown item)) (filter (\<lambda>item. markdown item \<noteq> []) windows)
      in join [LF, LF] (filter (\<lambda>part. part \<noteq> []) parts))"

text \<open>
  The ranges for which the loop of \<open>_summarize_windows\<close> makes a window, in the order
  in which it makes them: the same loop without the remote calls.
\<close>

fun plan_loop :: "nat \<Rightarrow> int \<Rightarrow> int \<Rightarrow> nat list \<Rightarrow> (int \<times> int) set \<Rightarrow> (int \<times> int) list" where
  "plan_loop n left right [] seen = []"
| "plan_loop n left right (idx # rest) seen =
     (let start = max 0 (int idx - left);
          end' = min (int n) (int idx + right + 1)
      in if end' - start \<le> 0 then plan_loop n left right rest seen
         else if (start, end') \<in> seen then plan_loop n left right rest seen
         else (start, end') # plan_loop n left right rest (insert (start, end') seen))"

definition window_plan :: "nat \<Rightarrow> int \<Rightarrow> (int \<times> int) list" where
  "window_plan n window_size =
     (let clamped_size = max 1 (min window_size (int n));
          left = clamped_size div 2;
          right = clamped_size - left - 1
      in plan_loop n left right [0..<n] {})"

text \<open>The window made for a range of the page list.\<close>

definition window_of :: "page list \<Rightarrow> int \<times> int \<Rightarrow> window \<Rightarrow> bool" where
  "window_of pages r w \<longleftrightarrow>
     make_window (py_slice pages (fst r) (snd r)) (markdown w) = Inr w"

section \<open>Quiz parsing (main.py)\<close>

record quiz_question =
  question :: json
  options :: "json list"
  correctIndex :: int
  explanation :: json

record quiz_payload =
  questions :: "quiz_question list"
  notes' :: "pystr list"

text \<open>The f-string of the default question text: two Hangul syllables, a space, \<open>idx + 1\<close>.\<close>

definition default_question_text :: "nat \<Rightarrow> pystr" where
  "default_question_text idx = [47928, 51228, 32] @ str_int (int idx + 1)"

text \<open>
  The body of the loop over \<open>enumerate(questions_raw)\<close>, with the option list and the
  coercion of the index as functions of their own: \<open>None\<close> where the source continues,
  the appended question otherwise. \<open>item.get\<close> raises \<open>AttributeError\<close> on an item
  that is no dict; \<open>int\<close> may raise, and only \<open>TypeError\<close> and \<open>ValueError\<close> are
  caught.
\<close>

definition item_options :: "(pystr \<times> json) list \<Rightarrow> json list" where
  "item_options d =
     (let opts = py_or (get d (S ''options'')) (py_or (get d (S ''opts'')) (JList []))
      in case opts of JList xs \<Rightarrow> xs | _ \<Rightarrow> [])"

definition coerce_index :: "env \<Rightarrow> json \<Rightarrow> exn + int" where
  "coerce_index env correct_index =
     (case py_int env correct_index of
        Inl TypeError \<Rightarrow> Inr 0
      | Inl ValueError \<Rightarrow> Inr 0
      | r \<Rightarrow> r)"

definition quiz_item :: "env \<Rightarrow> nat \<Rightarrow> json \<Rightarrow> exn + quiz_question option" where
  "quiz_item env idx item =
     (case item of
        JDict d \<Rightarrow>
          let opts = item_options d
          in if length opts < 4 then Inr None
             else
               case coerce_index env (get_default d (S ''correctIndex'') (get d (S ''correct''))) of
                 Inl e \<Rightarrow> Inl e
               | Inr correct_index \<Rightarrow>
                   let question_text =
                         py_or (get d (S ''question''))
                           (py_or (get d (S ''q'')) (JStr (default_question_text idx)))
                   in Inr (Some \<lparr>question = question_text,
                                  options = take 4 opts,
                                  correctIndex =
                                    max 0 (min correct_index (int (length (take 4 opts)) - 1)),
                                  explanation = get_default d (S ''explanation'') (JStr [])\<rparr>)
      | _ \<Rightarrow> Inl AttributeError)"

fun quiz_loop :: "env \<Rightarrow> nat \<Rightarrow> json list \<Rightarrow> quiz_question list \<Rightarrow> exn + quiz_question list" where
  "quiz_loop env idx [] qs = Inr qs"
| "quiz_loop env idx (item # rest) qs =
     (case quiz_item env idx item of
        Inl e \<Rightarrow> Inl e
      | Inr None \<Rightarrow> quiz_loop env (Suc idx) rest qs
      | Inr (Some q) \<Rightarrow> quiz_loop env (Suc idx) rest (qs @ [q]))"

text \<open>The list the questions are read from: \<open>data["questions"]\<close> or \<open>data\<close> itself.\<close>

definition questions_container :: "json \<Rightarrow> json list option" where
  "questions_container data =
     (case data of
        JDict d \<Rightarrow> (case get d (S ''questions'') of JList xs \<Rightarrow> Some xs | _ \<Rightarrow> None)
      | JList xs \<Rightarrow> Some xs
      | _ \<Rightarrow> None)"

definition notes_of :: "env \<Rightarrow> json \<Rightarrow> pystr list" where
  "notes_of env data =
     (case data of
        JDict d \<Rightarrow>
          (case get d (S ''notes'') of
             JStr s \<Rightarrow> map strip (filter (\<lambda>line. strip line \<noteq> []) (splitlines s))
           | JList xs \<Rightarrow> stripped_nonempty env xs
           | _ \<Rightarrow> [])
      | _ \<Rightarrow> [])"

definition parse_quiz_payload :: "env \<Rightarrow> pystr \<Rightarrow> exn + quiz_payload" where
  "parse_quiz_payload env raw =
     (case json_loads env raw of
        None \<Rightarrow> Inl (HTTPException 500 (JsonParseFailed raw))
      | Some data \<Rightarrow>
          (case questions_container data of
             None \<Rightarrow> Inl (HTTPException 500 QuestionsArrayRequired)
           | Some questions_raw \<Rightarrow>
               (case quiz_loop env 0 questions_raw [] of
                  Inl e \<Rightarrow> Inl e
                | Inr qs \<Rightarrow>
                    if qs = [] then Inl (HTTPException 500 NoQuestionsFound)
                    else Inr \<lparr>questions = qs, notes' = notes_of env data\<rparr>)))"

section \<open>Uploaded documents (file\_parsers.py)\<close>

text \<open>
  A page of a PDF as \<open>pypdf\<close> gives it: \<open>extract_text\<close> raises, or returns a text or
  nothing. A PPTX archive: the names of its members and, for a member, the matches of the
  text-node pattern in its content. An uploaded file has a suffix (in lower case) and is
  opened by \<open>PdfReader\<close> and by \<open>ZipFile\<close>, each of which may raise.
\<close>

datatype pdf_page = ExtractRaises | ExtractReturns "pystr option"

record zip_archive =
  namelist :: "pystr list"
  text_nodes :: "pystr \<Rightarrow> pystr list"

record upload =
  suffix :: pystr
  pdf_reader :: "exn + pdf_page list"
  zip_file :: "exn + zip_archive"

definition page_text :: "pdf_page \<Rightarrow> pystr" where
  "page_text p = (case p of ExtractRaises \<Rightarrow> [] | ExtractReturns None \<Rightarrow> []
                  | ExtractReturns (Some t) \<Rightarrow> t)"

definition extract_pdf_pages :: "upload \<Rightarrow> exn + chunk list" where
  "extract_pdf_pages f =
     (case pdf_reader f of
        Inl e \<Rightarrow> Inl e
      | Inr ps \<Rightarrow>
          Inr (map (\<lambda>(idx, p). \<lparr>index = int idx,
                                label = S ''Page '' @ str_int (int idx),
                                text' = normalize_text (page_text p)\<rparr>)
                   (enumerate 1 ps)))"

definition startswith :: "pystr \<Rightarrow> pystr \<Rightarrow> bool" where
  "startswith s p \<longleftrightarrow> take (length p) s = p"

definition endswith :: "pystr \<Rightarrow> pystr \<Rightarrow> bool" where
  "endswith s p \<longleftrightarrow> length p \<le> length s \<and> drop (length s - length p) s = p"

text \<open>The entity replacements of \<open>_extract_text_nodes\<close>, in the source's order.\<close>

definition unescape :: "pystr \<Rightarrow> pystr" where
  "unescape fragment =
     py_replace (S ''&apos;'') [39]
       (py_replace (S ''&quot;'') [34]
         (py_replace (S ''&gt;'') (S ''>'')
           (py_replace (S ''&lt;'') (S ''<'')
             (py_replace (S ''&amp;'') (S ''&'') fragment))))"

definition extract_pptx_slides :: "upload \<Rightarrow> exn + chunk list" where
  "extract_pptx_slides f =
     (case zip_file f of
        Inl e \<Rightarrow> Inl e
      | Inr archive \<Rightarrow>
          let slide_files = sort (filter (\<lambda>name. startswith name (S ''ppt/slides/slide'') \<and>
                                                 endswith name (S ''.xml''))
                                        (namelist archive))
          in Inr (map (\<lambda>(idx, name).
                         \<lparr>index = int idx,
                          label = S ''Slide '' @ str_int (int idx),
                          text' = normalize_text
                                    (join [LF] (map unescape (text_nodes archive name)))\<rparr>)
                      (enumerate 1 slide_files)))"

definition extract_text_from_pdf :: "upload \<Rightarrow> exn + pystr" where
  "extract_text_from_pdf f =
     (case extract_pdf_pages f of
        Inl e \<Rightarrow> Inl e
      | Inr pages \<Rightarrow> Inr (normalize_text (join [LF] (map text' pages))))"

definition extract_text_from_pptx :: "upload \<Rightarrow> exn + pystr" where
  "extract_text_from_pptx f =
     (case extract_pptx_slides f of
        Inl e \<Rightarrow> Inl e
      | Inr slides \<Rightarrow> Inr (normalize_text (join [LF] (map text' slides))))"

text \<open>\<open>_extract_page_chunks\<close> (main.py).\<close>

definition extract_page_chunks :: "upload \<Rightarrow> exn + chunk list" where
  "extract_page_chunks f =
     (let ext = suffix f
      in if ext = S ''.pdf'' then extract_pdf_pages f
         else if ext = S ''.pptx'' then extract_pptx_slides f
         else Inl (HTTPException 400 (UnsupportedExtension ext)))"

section \<open>The note store (learning\_note\_storage.py)\<close>

text \<open>
  A note file is in one of four states, by what \<open>read\<close> meets in it: \<open>read_text\<close>
  raises \<open>OSError\<close>; the bytes are no UTF-8, for which \<open>read_text(encoding="utf-8")\<close>
  raises \<open>UnicodeDecodeError\<close> (a \<open>ValueError\<close> that is neither a
  \<open>JSONDecodeError\<close> nor an \<open>OSError\<close>); the text is no JSON; or the file holds a
  JSON document. \<open>write\<close> (here \<open>write'\<close>) leaves the document of the payload: the payloads of this
  program are dicts of strings, integers and lists, which \<open>json.dump\<close> and
  \<open>json.loads\<close> give back unchanged.
\<close>

datatype note_file = Unreadable | Undecodable | Malformed | Document json

type_synonym note_store = "pystr \<rightharpoonup> note_file"

definition path_for :: "env \<Rightarrow> pystr \<Rightarrow> pystr" where
  "path_for env file_id = path_name env file_id @ S ''.json''"

definition read :: "env \<Rightarrow> note_store \<Rightarrow> pystr \<Rightarrow> exn + json option" where
  "read env files file_id =
     (case files (path_for env file_id) of
        None \<Rightarrow> Inr None
      | Some Unreadable \<Rightarrow> Inr None
      | Some Undecodable \<Rightarrow> Inl UnicodeDecodeError
      | Some Malformed \<Rightarrow> Inr None
      | Some (Document v) \<Rightarrow> Inr (Some v))"

definition write' :: "env \<Rightarrow> note_store \<Rightarrow> pystr \<Rightarrow> json \<Rightarrow> note_store" where
  "write' env files file_id payload = files(path_for env file_id \<mapsto> Document payload)"

definition save :: "env \<Rightarrow> note_store \<Rightarrow> pystr \<Rightarrow> json \<Rightarrow> note_store" where
  "save env files file_id payload = write' env files file_id payload"

section \<open>The quiz store\<close>

record quiz_record = quiz_payload +
  createdAt :: pystr
  sourceType :: pystr
  reference :: "pystr \<times> pystr"
  numQuestions :: int
  difficulty :: "pystr option"

record stored_quiz = quiz_record +
  id' :: pystr

text \<open>
  Modelled from the spec: \<open>QuizStorage.add_record\<close>, of \<open>quiz_storage.py\<close>, which is
  not among the sources. The spec gives its contract: it appends the record, with a
  generated id, to an append-only store, and returns the record with its id.
\<close>

definition add_record :: "env \<Rightarrow> stored_quiz list \<Rightarrow> quiz_record \<Rightarrow> stored_quiz \<times> stored_quiz list" where
  "add_record env store r =
     (let stored = \<lparr>questions = questions r, notes' = notes' r, createdAt = createdAt r,
                     sourceType = sourceType r, reference = reference r,
                     numQuestions = numQuestions r, difficulty = difficulty r,
                     id' = quiz_id env (length store)\<rparr>
      in (stored, store @ [stored]))"

section \<open>The request handlers (main.py)\<close>

text \<open>
  The state the handlers work on: the upload directory (a file id is bound when its
  resolved path lies in the directory and exists), the note files, the quiz store and the
  remote calls made so far.
\<close>

record world =
  uploads :: "pystr \<rightharpoonup> upload"
  note_files :: note_store
  quizzes :: "stored_quiz list"
  calls :: trace

record quiz_response = quiz_payload +
  quizId :: pystr

text \<open>
  What both quiz handlers do, in the same words, once the remote model was called: the
  answer is parsed, and the parsed quiz is stored (\<open>store_quiz\<close>) and returned
  (\<open>answer_quiz\<close>).
\<close>

definition store_quiz ::
  "env \<Rightarrow> pystr \<Rightarrow> (pystr \<times> pystr) \<Rightarrow> pystr option \<Rightarrow> quiz_payload \<Rightarrow> world
     \<Rightarrow> quiz_response \<times> world" where
  "store_quiz env source_type ref diff parsed w =
     (let (stored, store') =
            add_record env (quizzes w)
              \<lparr>questions = questions parsed, notes' = notes' parsed,
               createdAt = utc_now env, sourceType = source_type, reference = ref,
               numQuestions = int (length (questions parsed)), difficulty = diff\<rparr>
      in (\<lparr>questions = questions parsed, notes' = notes' parsed, quizId = id' stored\<rparr>,
          w\<lparr>quizzes := store'\<rparr>))"

definition answer_quiz ::
  "env \<Rightarrow> pystr \<Rightarrow> (pystr \<times> pystr) \<Rightarrow> pystr option \<Rightarrow> (exn + pystr) \<times> trace \<Rightarrow> world
     \<Rightarrow> (exn + quiz_response) \<times> world" where
  "answer_quiz env source_type ref diff answer w =
     (case answer of
        (Inl e, tr) \<Rightarrow> (Inl e, w\<lparr>calls := tr\<rparr>)
      | (Inr raw, tr) \<Rightarrow>
          (case parse_quiz_payload env raw of
             Inl e \<Rightarrow> (Inl e, w\<lparr>calls := tr\<rparr>)
           | Inr parsed \<Rightarrow>
               let (resp, w') = store_quiz env source_type ref diff parsed (w\<lparr>calls := tr\<rparr>)
               in (Inr resp, w')))"

text \<open>The request bodies.\<close>

record QuizFromTextRequest =
  sourceText :: pystr
  numQuestions :: int
  difficulty :: pystr

record QuizFromFileRequest =
  fileId :: pystr
  numQuestions :: int

record LearningNoteRequest =
  fileId :: pystr
  windowSize :: int
  force :: bool

definition generate_quiz_from_text ::
  "env \<Rightarrow> QuizFromTextRequest \<Rightarrow> world \<Rightarrow> (exn + quiz_response) \<times> world" where
  "generate_quiz_from_text env payload w =
     (let normalized_text = take MAX_SOURCE_CHARS (normalize_text (sourceText payload))
      in if length normalized_text < 30 then (Inl (HTTPException 400 SourceTextTooShort), w)
         else
           answer_quiz env (S ''text'') (S ''hash'', sha256_hexdigest env normalized_text)
             (Some (QuizFromTextRequest.difficulty payload))
             (generate_with_gemini env
                (TextQuizPrompt normalized_text (QuizFromTextRequest.numQuestions payload)
                   (QuizFromTextRequest.difficulty payload)) (calls w))
             w)"

definition generate_quiz_from_file ::
  "env \<Rightarrow> QuizFromFileRequest \<Rightarrow> world \<Rightarrow> (exn + quiz_response) \<times> world" where
  "generate_quiz_from_file env payload w =
     (case uploads w (QuizFromFileRequest.fileId payload) of
        None \<Rightarrow> (Inl (HTTPException 404 UploadNotFound), w)
      | Some f \<Rightarrow>
          let ext = suffix f;
              extracted =
                (if ext = S ''.pdf'' then extract_text_from_pdf f
                 else if ext = S ''.pptx'' then extract_text_from_pptx f
                 else Inl (HTTPException 400 (UnsupportedExtension ext)))
          in case extracted of
               Inl e \<Rightarrow> (Inl e, w)
             | Inr extracted_text \<Rightarrow>
                 if extracted_text = [] then (Inl (HTTPException 400 NoTextExtracted), w)
                 else
                   answer_quiz env (S ''file'') (S ''fileId'', QuizFromFileRequest.fileId payload)
                     None
                     (generate_with_gemini env
                        (FileQuizPrompt (take MAX_SOURCE_CHARS extracted_text)
                           (QuizFromFileRequest.numQuestions payload)) (calls w))
                     w)"

text \<open>
  The loop of \<open>generate_learning_note\<close> over the chunks: a chunk without text is
  skipped, the others are summarised with one remote call each.
\<close>

fun summarize_pages :: "env \<Rightarrow> chunk list \<Rightarrow> page list \<Rightarrow> trace \<Rightarrow> (exn + page list) \<times> trace" where
  "summarize_pages env [] pages tr = (Inr pages, tr)"
| "summarize_pages env (c # rest) pages tr =
     (let txt = strip (text' c)
      in if txt = [] then summarize_pages env rest pages tr
         else
           case summarize_single_page env (label c) (take MAX_PAGE_PROMPT_CHARS txt) tr of
             (Inl e, tr') \<Rightarrow> (Inl e, tr')
           | (Inr s, tr') \<Rightarrow>
               summarize_pages env rest
                 (pages @ [\<lparr>index = index c, label = label c,
                            text' = clip_text txt MAX_PAGE_TEXT_CHARS, summary = s\<rparr>]) tr')"

text \<open>The record of a note as the JSON object that is returned and saved.\<close>

definition summary_json :: "page_summary \<Rightarrow> json" where
  "summary_json s =
     JDict [(S ''outline'', JStr (outline s)),
            (S ''keyPoints'', JList (map JStr (keyPoints s))),
            (S ''studyQuestion'', JStr (studyQuestion s))]"

definition page_json :: "page \<Rightarrow> json" where
  "page_json p =
     JDict [(S ''index'', JInt (index p)), (S ''label'', JStr (label p)),
            (S ''text'', JStr (text' p)), (S ''summary'', summary_json (summary p))]"

definition window_json :: "window \<Rightarrow> json" where
  "window_json w =
     JDict [(S ''startPage'', JInt (startPage w)), (S ''endPage'', JInt (endPage w)),
            (S ''pageIndexes'', JList (map JInt (pageIndexes w))),
            (S ''markdown'', JStr (markdown w))]"

definition note_record ::
  "pystr \<Rightarrow> json \<Rightarrow> pystr \<Rightarrow> int \<Rightarrow> page list \<Rightarrow> window list \<Rightarrow> pystr \<Rightarrow> json" where
  "note_record file_id created_at now window_size pages windows merged_md =
     JDict [(S ''fileId'', JStr file_id),
            (S ''createdAt'', py_or created_at (JStr now)),
            (S ''updatedAt'', JStr now),
            (S ''pageCount'', JInt (int (length pages))),
            (S ''windowSize'', JInt window_size),
            (S ''pages'', JList (map page_json pages)),
            (S ''windows'', JList (map window_json windows)),
            (S ''markdown'', JStr merged_md)]"

text \<open>
  \<open>(existing or {}).get("createdAt")\<close>: \<open>get\<close> raises \<open>AttributeError\<close> on a stored
  value that is true and no dict.
\<close>

definition prior_created_at :: "json option \<Rightarrow> exn + json" where
  "prior_created_at existing =
     (case existing of
        None \<Rightarrow> Inr JNull
      | Some v \<Rightarrow>
          if truthy v then (case v of JDict d \<Rightarrow> Inr (get d (S ''createdAt'')) | _ \<Rightarrow> Inl AttributeError)
          else Inr JNull)"

text \<open>
  \<open>generate_learning_note\<close>, in two parts: what follows the test of the stored note
  (\<open>regenerate_note\<close>), and the handler with that test.
\<close>

definition regenerate_note ::
  "env \<Rightarrow> LearningNoteRequest \<Rightarrow> json option \<Rightarrow> world \<Rightarrow> (exn + json) \<times> world" where
  "regenerate_note env payload existing w =
     (case uploads w (fileId payload) of
        None \<Rightarrow> (Inl (HTTPException 404 UploadNotFound), w)
      | Some f \<Rightarrow>
          (case extract_page_chunks f of
             Inl e \<Rightarrow> (Inl e, w)
           | Inr chunks \<Rightarrow>
               if chunks = [] then (Inl (HTTPException 400 NoPagesFound), w)
               else
                 case summarize_pages env chunks [] (calls w) of
                   (Inl e, tr) \<Rightarrow> (Inl e, w\<lparr>calls := tr\<rparr>)
                 | (Inr pages, tr) \<Rightarrow>
                     if pages = [] then
                       (Inl (HTTPException 400 NoSummarizableContent), w\<lparr>calls := tr\<rparr>)
                     else
                       case summarize_windows env pages (windowSize payload) tr of
                         (Inl e, tr') \<Rightarrow> (Inl e, w\<lparr>calls := tr'\<rparr>)
                       | (Inr windows, tr') \<Rightarrow>
                           (case prior_created_at existing of
                              Inl e \<Rightarrow> (Inl e, w\<lparr>calls := tr'\<rparr>)
                            | Inr created_at \<Rightarrow>
                                let record =
                                      note_record (fileId payload) created_at (utc_now env)
                                        (windowSize payload) pages windows
                                        (merge_markdown windows)
                                in (Inr record,
                                    w\<lparr>calls := tr',
                                      note_files :=
                                        save env (note_files w) (fileId payload) record\<rparr>))))"

definition generate_learning_note ::
  "env \<Rightarrow> LearningNoteRequest \<Rightarrow> world \<Rightarrow> (exn + json) \<times> world" where
  "generate_learning_note env payload w =
     (case read env (note_files w) (fileId payload) of
        Inl e \<Rightarrow> (Inl e, w)
      | Inr existing \<Rightarrow>
          (case existing of
             Some v \<Rightarrow>
               if truthy v \<and> \<not> force payload then (Inr v, w)
               else regenerate_note env payload existing w
           | None \<Rightarrow> regenerate_note env payload existing w))"

text \<open>\<open>get_learning_note\<close>.\<close>

definition get_learning_note :: "env \<Rightarrow> pystr \<Rightarrow> world \<Rightarrow> exn + json" where
  "get_learning_note env file_id w =
     (case read env (note_files w) file_id of
        Inl e \<Rightarrow> Inl e
      | Inr None \<Rightarrow> Inl (HTTPException 404 NoteNotFound)
      | Inr (Some v) \<Rightarrow> if truthy v then Inr v else Inl (HTTPException 404 NoteNotFound))"

section \<open>Failed remote calls\<close>

text \<open>
  A recorded call has failed when it raised, when it returned no text, or when it was made
  for a page summary and what it returned is no JSON.
\<close>

fun failed_call :: "env \<Rightarrow> prompt \<times> response \<Rightarrow> bool" where
  "failed_call env (p, Raises) = True"
| "failed_call env (PageSummaryPrompt l t, Text raw) =
     (raw = [] \<or> json_loads env (clean_answer raw) = None)"
| "failed_call env (p, Text raw) = (raw = [])"

text \<open>
  How a stage that makes remote calls ends: it has appended its calls to the trace, and
  either none of them failed or the stage raised an HTTP error with status 500.
\<close>

definition stage_ok :: "env \<Rightarrow> trace \<Rightarrow> (exn + 'a) \<times> trace \<Rightarrow> bool" where
  "stage_ok env tr out \<longleftrightarrow>
     (\<exists>new. snd out = tr @ new \<and>
        ((\<forall>c\<in>set new. \<not> failed_call env c) \<or> (\<exists>d. fst out = Inl (HTTPException 500 d))))"

section \<open>Runs of page indexes\<close>

text \<open>Each element is its predecessor plus one.\<close>

fun consecutive :: "int list \<Rightarrow> bool" where
  "consecutive (a # b # r) = (b = a + 1 \<and> consecutive (b # r))"
| "consecutive r = True"

text \<open>The windows of the note a request has returned.\<close>

definition note_windows :: "exn + json \<Rightarrow> json" where
  "note_windows res = (case res of Inr (JDict d) \<Rightarrow> get d (S ''windows'') | _ \<Rightarrow> JNull)"

section \<open>Example inputs\<close>

text \<open>
  An environment in which the remote model answers every page prompt with the same JSON
  summary, every window prompt with a Markdown section and every quiz prompt with a quiz,
  and pages as the summarising loop builds them.
\<close>

definition demo_summary_text :: pystr where
  \<open>demo_summary_text = S ''{"outline": "o", "keyPoints": ["k"], "studyQuestion": "q"}''\<close>

definition demo_summary_json :: json where
  "demo_summary_json =
     JDict [(S ''outline'', JStr (S ''o'')), (S ''keyPoints'', JList [JStr (S ''k'')]),
            (S ''studyQuestion'', JStr (S ''q''))]"

definition demo_quiz_text :: pystr where
  \<open>demo_quiz_text = S ''[{"options": [1, 2, 3]}, {"options": [1, 2, 3, 4, 5], "correctIndex": 99}, {"options": [1, 2, 3, 4], "correctIndex": "abc"}]''\<close>

definition demo_quiz_json :: json where
  "demo_quiz_json =
     JList [JDict [(S ''options'', JList [JInt 1, JInt 2, JInt 3])],
            JDict [(S ''options'', JList [JInt 1, JInt 2, JInt 3, JInt 4, JInt 5]),
                   (S ''correctIndex'', JInt 99)],
            JDict [(S ''options'', JList [JInt 1, JInt 2, JInt 3, JInt 4]),
                   (S ''correctIndex'', JStr (S ''abc''))]]"

definition demo_short_quiz_text :: pystr where
  \<open>demo_short_quiz_text = S ''{"questions": [{"options": ["a", "b", "c"]}]}''\<close>

definition demo_short_quiz_json :: json where
  "demo_short_quiz_json =
     JDict [(S ''questions'',
             JList [JDict [(S ''options'', JList [JStr (S ''a''), JStr (S ''b''), JStr (S ''c'')])]])]"

definition demo_env :: env where
  "demo_env =
     \<lparr>json_loads = (\<lambda>s. if s = demo_summary_text then Some demo_summary_json
                          else if s = demo_quiz_text then Some demo_quiz_json
                          else if s = demo_short_quiz_text then Some demo_short_quiz_json
                          else None),
      py_repr = (\<lambda>v. S ''repr''),
      unicode_decimal = (\<lambda>c. None),
      int_max_str_digits = 4300,
      path_name = (\<lambda>p. p),
      sha256_hexdigest = (\<lambda>s. S ''digest''),
      remote = (\<lambda>tr p. case p of
                   PageSummaryPrompt l t \<Rightarrow> Text demo_summary_text
                 | WindowPrompt ps \<Rightarrow> Text (S ''### Pages'')
                 | _ \<Rightarrow> Text demo_quiz_text),
      utc_now = S ''2026-01-02T03:04:05+00:00'',
      quiz_id = (\<lambda>n. S ''quiz-'' @ str_int (int n + 1))\<rparr>"

definition demo_summary :: page_summary where
  "demo_summary = \<lparr>outline = S ''o'', keyPoints = [S ''k''], studyQuestion = S ''q''\<rparr>"

definition demo_page :: "int \<Rightarrow> page" where
  "demo_page i = \<lparr>index = i, label = S ''Page '' @ str_int i, text' = S ''text'', summary = demo_summary\<rparr>"

text \<open>An empty world, a source text of fifty characters, and a remote model whose quiz
  has only an item of three options.\<close>

definition demo_world :: world where
  "demo_world = \<lparr>uploads = Map.empty, note_files = Map.empty, quizzes = [], calls = []\<rparr>"

definition demo_text_request :: QuizFromTextRequest where
  "demo_text_request =
     \<lparr>sourceText = S ''0123456789012345678901234567890123456789012345678 '',
      numQuestions = 5, difficulty = S ''normal''\<rparr>"

definition demo_short_env :: env where
  "demo_short_env = demo_env\<lparr>remote := (\<lambda>tr p. Text demo_short_quiz_text)\<rparr>"

text \<open>
  A PDF of three pages whose second page has no text, uploaded as \<open>lecture1.pdf\<close>, and
  requests for its learning note.
\<close>

definition demo_pdf :: upload where
  "demo_pdf =
     \<lparr>suffix = S ''.pdf'',
      pdf_reader = Inr [ExtractReturns (Some (S ''alpha'')), ExtractReturns (Some (S '' '')),
                        ExtractReturns (Some (S ''gamma''))],
      zip_file = Inl LibraryError\<rparr>"

definition demo_notes_world :: world where
  "demo_notes_world =
     \<lparr>uploads = [S ''lecture1.pdf'' \<mapsto> demo_pdf], note_files = Map.empty, quizzes = [],
      calls = []\<rparr>"

definition demo_note_request :: LearningNoteRequest where
  "demo_note_request = \<lparr>fileId = S ''lecture1.pdf'', windowSize = 3, force = False\<rparr>"

text \<open>
  The same world after an earlier request has saved a note for the file, and a request
  that forces the regeneration.
\<close>

definition demo_stored_note :: json where
  "demo_stored_note =
     note_record (S ''lecture1.pdf'') JNull (S ''2025-12-31T00:00:00+00:00'') 3 [demo_page 1]
       [\<lparr>startPage = 1, endPage = 1, pageIndexes = [1], markdown = S ''### Pages''\<rparr>]
       (S ''### Pages'')"

definition demo_cached_world :: world where
  "demo_cached_world =
     demo_notes_world\<lparr>note_files := [path_for demo_env (S ''lecture1.pdf'') \<mapsto> Document demo_stored_note]\<rparr>"

definition demo_force_request :: LearningNoteRequest where
  "demo_force_request = \<lparr>fileId = S ''lecture1.pdf'', windowSize = 3, force = True\<rparr>"

text \<open>A remote model that answers the first call and raises at the second.\<close>

definition demo_failing_env :: env where
  "demo_failing_env =
     demo_env\<lparr>remote := (\<lambda>tr p. if length tr = 1 then Raises else Text demo_summary_text)\<rparr>"

section \<open>Properties of text normalisation\<close>

lemma py_replace_nul: "py_replace [NUL] [SPACE] s = map (\<lambda>c. if c = NUL then SPACE else c) s"
  by (induction s) auto

lemma nul_free_replace: "NUL \<notin> set (py_replace [NUL] [SPACE] s)"
  by (induction s) (auto simp: NUL_def SPACE_def)

lemma py_replace_nul_id: "NUL \<notin> set s \<Longrightarrow> py_replace [NUL] [SPACE] s = s"
  by (induction s) auto

lemma set_sub_cr_runs: "set (sub_cr_runs s) \<subseteq> insert LF (set s - {CR})"
proof (induction s rule: sub_cr_runs.induct)
  case 1
  show ?case by simp
next
  case (2 c cs)
  have "set (dropWhile (\<lambda>x. x = CR) cs) \<subseteq> set cs"
    by (meson set_dropWhileD subsetI)
  with 2 show ?case by (auto split: if_splits)
qed

lemma sub_cr_runs_id: "CR \<notin> set s \<Longrightarrow> sub_cr_runs s = s"
  by (induction s) auto

lemma set_sub_newline_runs: "set (sub_newline_runs s) \<subseteq> set s"
proof (induction s rule: sub_newline_runs.induct)
  case 1
  show ?case by simp
next
  case (2 c cs)
  have d: "set (dropWhile (\<lambda>x. x = LF) cs) \<subseteq> set cs"
    by (meson set_dropWhileD subsetI)
  show ?case
  proof (cases "3 \<le> length (takeWhile (\<lambda>x. x = LF) (c # cs))")
    case True
    then have "c = LF" by (auto split: if_splits)
    with True 2 d show ?thesis by auto
  next
    case False
    with 2 show ?thesis by auto
  qed
qed

lemma sub_newline_runs_id: "no_long_run s \<Longrightarrow> sub_newline_runs s = s"
  by (induction s) auto

lemma takeWhile_dropWhile_Nil: "takeWhile P (dropWhile P xs) = []"
  by (induction xs) auto

lemma takeWhile_sub_newline_runs:
  "takeWhile (\<lambda>x. x = LF) (sub_newline_runs s) = take 2 (takeWhile (\<lambda>x. x = LF) s)"
proof (induction s rule: sub_newline_runs.induct)
  case 1
  show ?case by simp
next
  case (2 c cs)
  show ?case
  proof (cases "3 \<le> length (takeWhile (\<lambda>x. x = LF) (c # cs))")
    case True
    then have c: "c = LF" by (auto split: if_splits)
    from True c have "2 \<le> length (takeWhile (\<lambda>x. x = LF) cs)" by simp
    then obtain d ds where cs: "takeWhile (\<lambda>x. x = LF) cs = d # ds"
      by (cases "takeWhile (\<lambda>x. x = LF) cs") auto
    have "d \<in> set (takeWhile (\<lambda>x. x = LF) cs)" by (simp add: cs)
    then have "d = LF" by (rule set_takeWhileD [THEN conjunct2])
    with 2 True c cs show ?thesis by (simp add: takeWhile_dropWhile_Nil)
  next
    case False
    show ?thesis
    proof (cases "c = LF")
      case True
      with False have "length (takeWhile (\<lambda>x. x = LF) cs) \<le> 1" by simp
      with 2 False True show ?thesis by simp
    next
      case False
      then show ?thesis by simp
    qed
  qed
qed

lemma no_long_run_sub: "no_long_run (sub_newline_runs s)"
proof (induction s rule: sub_newline_runs.induct)
  case 1
  show ?case by simp
next
  case (2 c cs)
  show ?case
  proof (cases "3 \<le> length (takeWhile (\<lambda>x. x = LF) (c # cs))")
    case True
    with 2 show ?thesis by (simp add: takeWhile_sub_newline_runs takeWhile_dropWhile_Nil)
  next
    case False
    with 2 show ?thesis by (auto simp: takeWhile_sub_newline_runs split: if_splits)
  qed
qed

lemma no_long_run_tl: "no_long_run s \<Longrightarrow> no_long_run (dropWhile P s)"
  by (induction s) auto

lemma length_takeWhile_append: "length (takeWhile P xs) \<le> length (takeWhile P (xs @ ys))"
  by (induction xs) auto

lemma no_long_run_prefix: "no_long_run (a @ b) \<Longrightarrow> no_long_run a"
proof (induction a)
  case Nil
  show ?case by simp
next
  case (Cons c a)
  have "length (takeWhile (\<lambda>x. x = LF) (c # a)) \<le> length (takeWhile (\<lambda>x. x = LF) ((c # a) @ b))"
    by (rule length_takeWhile_append)
  with Cons show ?case by simp
qed

lemma rstrip_prefix: "\<exists>t. s = rstrip s @ t"
proof -
  have "rev (rstrip s @ rev (takeWhile is_space (rev s))) = rev s"
    by (simp add: rstrip_def)
  then have "s = rstrip s @ rev (takeWhile is_space (rev s))"
    by (simp only: rev_is_rev_conv)
  then show ?thesis ..
qed

lemma no_long_run_strip:
  assumes "no_long_run s"
  shows "no_long_run (strip s)"
proof -
  have l: "no_long_run (lstrip s)"
    using assms by (simp add: lstrip_def no_long_run_tl)
  obtain t where "lstrip s = rstrip (lstrip s) @ t"
    using rstrip_prefix by blast
  with l have "no_long_run (rstrip (lstrip s) @ t)" by simp
  then show ?thesis
    unfolding strip_def by (rule no_long_run_prefix)
qed

lemma set_strip: "set (strip s) \<subseteq> set s"
  by (auto simp: strip_def rstrip_def lstrip_def dest!: set_dropWhileD)

lemma strip_strip: "strip (strip s) = strip s"
proof -
  define t where "t = lstrip s"
  have t: "t = [] \<or> \<not> is_space (hd t)"
    unfolding t_def lstrip_def using hd_dropWhile [of is_space s] by blast
  obtain u where u: "t = rstrip t @ u"
    using rstrip_prefix by blast
  have "rstrip t = [] \<or> \<not> is_space (hd (rstrip t))"
  proof (cases "rstrip t")
    case Nil
    then show ?thesis by simp
  next
    case (Cons x xs)
    with u have "hd t = x" by (cases t) auto
    with t u Cons show ?thesis by auto
  qed
  then have l: "lstrip (rstrip t) = rstrip t"
    unfolding lstrip_def by (cases "rstrip t") auto
  have "rstrip (rstrip t) = rstrip t"
    unfolding rstrip_def by (simp add: dropWhile_idem)
  with l show ?thesis by (simp add: strip_def t_def)
qed

text \<open>
  C9. \<open>normalize_text\<close> is idempotent: what it returns has no NUL, no carriage return, no
  run of three newlines and no outer white space, so a second pass changes nothing.
\<close>

theorem normalize_text_idempotent: "normalize_text (normalize_text s) = normalize_text s"
proof -
  define a where "a = py_replace [NUL] [SPACE] s"
  define b where "b = sub_cr_runs a"
  define c where "c = sub_newline_runs b"
  have n: "normalize_text s = strip c"
    by (simp add: normalize_text_def a_def b_def c_def)
  have "NUL \<notin> set a" by (simp add: a_def nul_free_replace)
  then have "NUL \<notin> set b \<and> CR \<notin> set b"
    using set_sub_cr_runs [of a] by (auto simp: b_def NUL_def LF_def CR_def)
  then have "NUL \<notin> set c \<and> CR \<notin> set c"
    using set_sub_newline_runs [of b] by (auto simp: c_def)
  then have sc: "NUL \<notin> set (strip c) \<and> CR \<notin> set (strip c)"
    using set_strip [of c] by auto
  have nl: "no_long_run (strip c)"
    by (simp add: c_def no_long_run_sub no_long_run_strip)
  have "normalize_text (strip c) = strip (strip c)"
    using sc nl by (simp add: normalize_text_def py_replace_nul_id sub_cr_runs_id sub_newline_runs_id)
  then show ?thesis by (simp add: n strip_strip)
qed

section \<open>Properties of the window planner\<close>

lemma py_slice_length:
  "0 \<le> s \<Longrightarrow> s \<le> e \<Longrightarrow> e \<le> int (length xs) \<Longrightarrow> length (py_slice xs s e) = nat (e - s)"
  by (auto simp: py_slice_def slice_bound_def)

lemma py_slice_nth:
  "0 \<le> s \<Longrightarrow> e \<le> int (length xs) \<Longrightarrow> s \<le> int i \<Longrightarrow> int i < e \<Longrightarrow>
     py_slice xs s e ! (i - nat s) = xs ! i"
  by (auto simp: py_slice_def slice_bound_def)

lemma make_window_fields:
  "make_window ps md = Inr w \<Longrightarrow>
     ps \<noteq> [] \<and> pageIndexes w = map index ps \<and> startPage w = index (hd ps) \<and>
     endPage w = index (last ps) \<and> markdown w = md"
  by (auto simp: make_window_def split: list.splits)

lemma plan_loop_bounds:
  "(s, e) \<in> set (plan_loop n left right idxs seen) \<Longrightarrow> 0 \<le> s \<and> s < e \<and> e \<le> int n"
  by (induction idxs arbitrary: seen) (auto simp: Let_def split: if_splits)

lemma plan_loop_covers:
  assumes "idx \<in> set idxs" "idx < n" "0 \<le> left" "0 \<le> right"
  shows "(max 0 (int idx - left), min (int n) (int idx + right + 1))
           \<in> seen \<union> set (plan_loop n left right idxs seen)"
  using assms(1)
proof (induction idxs arbitrary: seen)
  case Nil
  then show ?case by simp
next
  case (Cons a idxs)
  show ?case
  proof (cases "idx = a")
    case True
    have "\<not> min (int n) (int idx + right + 1) - max 0 (int idx - left) \<le> 0"
      using assms(2-4) by auto
    with True show ?thesis by (auto simp: Let_def)
  next
    case False
    with Cons.prems have "idx \<in> set idxs" by simp
    from Cons.IH [OF this, of seen] Cons.IH [OF this, of "insert (max 0 (int a - left), min (int n) (int a + right + 1)) seen"]
    show ?thesis by (auto simp: Let_def)
  qed
qed

lemma window_plan_bounds:
  "(s, e) \<in> set (window_plan n w) \<Longrightarrow> 0 \<le> s \<and> s < e \<and> e \<le> int n"
  unfolding window_plan_def Let_def by (rule plan_loop_bounds)

lemma window_plan_covers:
  assumes "i < n"
  shows "\<exists>(s, e) \<in> set (window_plan n w). s \<le> int i \<and> int i < e"
proof -
  define c where "c = max 1 (min w (int n))"
  define l where "l = c div 2"
  define r where "r = c - l - 1"
  have c: "1 \<le> c" by (simp add: c_def)
  then have l: "0 \<le> l" and r: "0 \<le> r" by (auto simp: l_def r_def)
  have "i \<in> set [0..<n]" using assms by simp
  from plan_loop_covers [OF this assms l r, of "{}"]
  have "(max 0 (int i - l), min (int n) (int i + r + 1)) \<in> set (window_plan n w)"
    by (simp add: window_plan_def Let_def c_def l_def r_def)
  moreover have "max 0 (int i - l) \<le> int i \<and> int i < min (int n) (int i + r + 1)"
    using l r assms by auto
  ultimately show ?thesis by blast
qed

lemma windows_loop_skip:
  assumes "min (int (length pages)) (int idx + right + 1) - max 0 (int idx - left) \<le> 0 \<or>
           (max 0 (int idx - left), min (int (length pages)) (int idx + right + 1)) \<in> seen"
  shows "windows_loop env pages left right (idx # rest) seen windows tr =
           windows_loop env pages left right rest seen windows tr"
  using assms by (auto simp: Let_def)

lemma windows_loop_emit:
  assumes "start = max 0 (int idx - left)"
    and "end' = min (int (length pages)) (int idx + right + 1)"
    and "\<not> end' - start \<le> 0" and "(start, end') \<notin> seen"
  shows "windows_loop env pages left right (idx # rest) seen windows tr =
     (case summarize_window_block env (py_slice pages start end') tr of
        (Inl e, tr') \<Rightarrow> (Inl e, tr')
      | (Inr md, tr') \<Rightarrow>
          (case make_window (py_slice pages start end') md of
             Inl e \<Rightarrow> (Inl e, tr')
           | Inr w \<Rightarrow>
               windows_loop env pages left right rest
                 (insert (start, end') seen) (windows @ [w]) tr'))"
  using assms(3,4) unfolding assms(1,2) by (simp add: Let_def)

lemma windows_loop_plan:
  assumes "windows_loop env pages left right idxs seen windows tr = (Inr ws, tr')"
  shows "\<exists>new. ws = windows @ new \<and>
           list_all2 (\<lambda>r w. window_of pages r w) (plan_loop (length pages) left right idxs seen) new"
  using assms
proof (induction idxs arbitrary: seen windows tr)
  case Nil
  then show ?case by simp
next
  case (Cons idx rest)
  define start where "start = max 0 (int idx - left)"
  define end' where "end' = min (int (length pages)) (int idx + right + 1)"
  show ?case
  proof (cases "end' - start \<le> 0 \<or> (start, end') \<in> seen")
    case True
    then have "windows_loop env pages left right (idx # rest) seen windows tr =
        windows_loop env pages left right rest seen windows tr"
      unfolding start_def end'_def by (rule windows_loop_skip)
    with Cons.prems have "windows_loop env pages left right rest seen windows tr = (Inr ws, tr')"
      by simp
    from Cons.IH [OF this] True show ?thesis
      by (auto simp: Let_def start_def end'_def)
  next
    case False
    then have "\<not> end' - start \<le> 0" "(start, end') \<notin> seen" by auto
    note windows_loop_emit [OF start_def end'_def this]
    with Cons.prems obtain md tr1 w where
      w: "make_window (py_slice pages start end') md = Inr w"
      and rest: "windows_loop env pages left right rest (insert (start, end') seen) (windows @ [w]) tr1
                   = (Inr ws, tr')"
      by (auto split: prod.splits sum.splits)
    from Cons.IH [OF rest] obtain new where
      new: "ws = (windows @ [w]) @ new"
        "list_all2 (\<lambda>r w. window_of pages r w)
           (plan_loop (length pages) left right rest (insert (start, end') seen)) new"
      by blast
    have "window_of pages (start, end') w"
      using w make_window_fields [OF w] by (simp add: window_of_def)
    with new False have "ws = windows @ (w # new) \<and>
        list_all2 (\<lambda>r w. window_of pages r w) (plan_loop (length pages) left right (idx # rest) seen) (w # new)"
      by (simp add: Let_def start_def end'_def)
    then show ?thesis by blast
  qed
qed

lemma summarize_windows_plan:
  assumes "pages \<noteq> []" "summarize_windows env pages window_size tr = (Inr ws, tr')"
  shows "\<exists>new. ws = sort_key startPage new \<and>
           list_all2 (\<lambda>r w. window_of pages r w) (window_plan (length pages) window_size) new"
proof -
  from assms obtain ws0 where
    loop: "windows_loop env pages (max 1 (min window_size (int (length pages))) div 2)
             (max 1 (min window_size (int (length pages)))
               - max 1 (min window_size (int (length pages))) div 2 - 1)
             [0..<length pages] {} [] tr = (Inr ws0, tr')"
    and ws: "ws = sort_key startPage ws0"
    by (auto simp: summarize_windows_def Let_def split: prod.splits sum.splits)
  from windows_loop_plan [OF loop] ws show ?thesis
    by (auto simp: window_plan_def Let_def)
qed

lemma window_of_fields:
  assumes "window_of pages (s, e) w" "0 \<le> s" "s < e" "e \<le> int (length pages)"
  shows "pageIndexes w = map index (py_slice pages s e)"
    and "startPage w = index (pages ! nat s)"
    and "endPage w = index (pages ! nat (e - 1))"
    and "pageIndexes w \<noteq> []"
proof -
  let ?ps = "py_slice pages s e"
  from assms(1) have mw: "make_window ?ps (markdown w) = Inr w"
    by (simp add: window_of_def)
  note f = make_window_fields [OF mw]
  show "pageIndexes w = map index ?ps" using f by simp
  show "pageIndexes w \<noteq> []" using f by simp
  have len: "length ?ps = nat (e - s)"
    using assms by (simp add: py_slice_length)
  have "hd ?ps = ?ps ! (nat s - nat s)" using f by (simp add: hd_conv_nth)
  also have "\<dots> = pages ! nat s"
    using py_slice_nth [of s e pages "nat s"] assms by simp
  finally show "startPage w = index (pages ! nat s)" using f by simp
  have "last ?ps = ?ps ! (nat (e - 1) - nat s)"
    using f len assms by (simp add: last_conv_nth nat_diff_distrib)
  also have "\<dots> = pages ! nat (e - 1)"
    using py_slice_nth [of s e pages "nat (e - 1)"] assms by simp
  finally show "endPage w = index (pages ! nat (e - 1))" using f by simp
qed

lemma generate_with_gemini_answers:
  assumes "\<forall>tr p. \<exists>t. remote env tr p = Text t \<and> t \<noteq> []"
  shows "\<exists>raw tr'. generate_with_gemini env p tr = (Inr raw, tr')"
proof -
  from assms obtain t where "remote env tr p = Text t" "t \<noteq> []" by blast
  then show ?thesis by (simp add: generate_with_gemini_def)
qed

lemma windows_loop_succeeds:
  assumes "\<forall>tr p. \<exists>t. remote env tr p = Text t \<and> t \<noteq> []"
  shows "\<exists>ws tr'. windows_loop env pages left right idxs seen windows tr = (Inr ws, tr')"
proof (induction idxs arbitrary: seen windows tr)
  case Nil
  show ?case by simp
next
  case (Cons idx rest)
  define start where "start = max 0 (int idx - left)"
  define end' where "end' = min (int (length pages)) (int idx + right + 1)"
  show ?case
  proof (cases "end' - start \<le> 0 \<or> (start, end') \<in> seen")
    case True
    then have "windows_loop env pages left right (idx # rest) seen windows tr =
        windows_loop env pages left right rest seen windows tr"
      unfolding start_def end'_def by (rule windows_loop_skip)
    with Cons.IH show ?thesis by simp
  next
    case False
    then have ne: "\<not> end' - start \<le> 0" "(start, end') \<notin> seen" by auto
    note step = windows_loop_emit [OF start_def end'_def ne]
    obtain raw tr1 where
      "generate_with_gemini env (build_window_prompt (py_slice pages start end')) tr = (Inr raw, tr1)"
      using generate_with_gemini_answers [OF assms] by blast
    then have blk: "summarize_window_block env (py_slice pages start end') tr = (Inr (strip raw), tr1)"
      by (simp add: summarize_window_block_def)
    have "0 \<le> start" "end' \<le> int (length pages)" by (auto simp: start_def end'_def)
    with ne have "length (py_slice pages start end') = nat (end' - start)"
      by (simp add: py_slice_length)
    with ne have "py_slice pages start end' \<noteq> []" by auto
    then obtain w where "make_window (py_slice pages start end') (strip raw) = Inr w"
      by (cases "py_slice pages start end'") (simp_all add: make_window_def)
    with blk step Cons.IH show ?thesis by simp
  qed
qed

lemma summarize_windows_succeeds:
  assumes "\<forall>tr p. \<exists>t. remote env tr p = Text t \<and> t \<noteq> []"
  shows "\<exists>ws tr'. summarize_windows env pages window_size tr = (Inr ws, tr')"
proof (cases "pages = []")
  case True
  then show ?thesis by (simp add: summarize_windows_def)
next
  case False
  obtain ws tr' where
    "windows_loop env pages (max 1 (min window_size (int (length pages))) div 2)
       (max 1 (min window_size (int (length pages)))
         - max 1 (min window_size (int (length pages))) div 2 - 1)
       [0..<length pages] {} [] tr = (Inr ws, tr')"
    using windows_loop_succeeds [OF assms] by blast
  with False show ?thesis by (simp add: summarize_windows_def Let_def)
qed

text \<open>
  C1. When the window stage of a non-empty page list returns, every page position lies
  in the range of one of the returned windows, and every returned window holds at least
  one page. (The stage returns whenever the remote model answers,
  \<open>summarize_windows_succeeds\<close>.)
\<close>

theorem windows_cover_every_page:
  assumes "pages \<noteq> []"
    and "summarize_windows env pages window_size tr = (Inr windows, tr')"
  shows "(\<forall>i<length pages. \<exists>w\<in>set windows. \<exists>start end'.
            0 \<le> start \<and> start \<le> int i \<and> int i < end' \<and> end' \<le> int (length pages) \<and>
            pageIndexes w = map index (py_slice pages start end') \<and>
            index (pages ! i) \<in> set (pageIndexes w))
         \<and> (\<forall>w\<in>set windows. pageIndexes w \<noteq> [])"
proof -
  from summarize_windows_plan [OF assms] obtain new where
    ws: "windows = sort_key startPage new"
    and rel: "list_all2 (\<lambda>r w. window_of pages r w) (window_plan (length pages) window_size) new"
    by blast
  have set_ws: "set windows = set new" by (simp add: ws)
  have cover: "\<exists>w\<in>set windows. \<exists>start end'.
            0 \<le> start \<and> start \<le> int i \<and> int i < end' \<and> end' \<le> int (length pages) \<and>
            pageIndexes w = map index (py_slice pages start end') \<and>
            index (pages ! i) \<in> set (pageIndexes w)" if i: "i < length pages" for i
  proof -
    from window_plan_covers [OF i, of window_size] obtain s e where
      se: "(s, e) \<in> set (window_plan (length pages) window_size)" "s \<le> int i" "int i < e"
      by blast
    from window_plan_bounds [OF se(1)] have b: "0 \<le> s" "s < e" "e \<le> int (length pages)"
      by auto
    from se(1) obtain j where j: "j < length (window_plan (length pages) window_size)"
      "window_plan (length pages) window_size ! j = (s, e)"
      by (auto simp: in_set_conv_nth)
    from rel j have w: "window_of pages (s, e) (new ! j)" and jn: "j < length new"
      by (auto simp: list_all2_conv_all_nth)
    note f = window_of_fields [OF w b]
    have len: "length (py_slice pages s e) = nat (e - s)"
      using b by (simp add: py_slice_length)
    have "py_slice pages s e ! (i - nat s) = pages ! i"
      using py_slice_nth [of s e pages i] b se by simp
    moreover have "i - nat s < length (py_slice pages s e)"
      using len b se by auto
    ultimately have "pages ! i \<in> set (py_slice pages s e)"
      by (metis nth_mem)
    then have "index (pages ! i) \<in> set (pageIndexes (new ! j))"
      using f(1) by simp
    moreover have "new ! j \<in> set windows" using jn set_ws by simp
    ultimately show ?thesis using f(1) b se by blast
  qed
  have nonempty: "pageIndexes w \<noteq> []" if "w \<in> set windows" for w
  proof -
    from that set_ws obtain j where j: "j < length new" "new ! j = w"
      by (auto simp: in_set_conv_nth)
    with rel have w: "window_of pages (window_plan (length pages) window_size ! j) w"
      and jp: "j < length (window_plan (length pages) window_size)"
      by (auto simp: list_all2_conv_all_nth)
    obtain s e where se: "window_plan (length pages) window_size ! j = (s, e)"
      by (cases "window_plan (length pages) window_size ! j")
    with jp have "(s, e) \<in> set (window_plan (length pages) window_size)"
      by (metis nth_mem)
    from window_plan_bounds [OF this] w se show ?thesis
      using window_of_fields(4) by auto
  qed
  from cover nonempty show ?thesis by blast
qed

lemmas demo_eval =
  summarize_windows_def Let_def demo_page_def demo_env_def demo_summary_def
  upt_rec [of _ "numeral _"] py_slice_def slice_bound_def summarize_window_block_def
  generate_with_gemini_def clean_answer_def build_window_prompt_def make_window_def S_def strip_def lstrip_def
  rstrip_def is_space_def str_int_def

theorem windows_cover_every_page_witness:
  "map demo_page [1, 2] \<noteq> [] \<and>
   fst (summarize_windows demo_env (map demo_page [1, 2]) 3 []) =
     Inr [\<lparr>startPage = 1, endPage = 1, pageIndexes = [1], markdown = S ''### Pages''\<rparr>,
          \<lparr>startPage = 1, endPage = 2, pageIndexes = [1, 2], markdown = S ''### Pages''\<rparr>] \<and>
   (\<exists>w\<in>set [\<lparr>startPage = 1, endPage = 1, pageIndexes = [1], markdown = S ''### Pages''\<rparr>,
              \<lparr>startPage = 1, endPage = 2, pageIndexes = [1, 2], markdown = S ''### Pages''\<rparr>].
      index (map demo_page [1, 2] ! 0) \<in> set (pageIndexes w)) \<and>
   (\<exists>w\<in>set [\<lparr>startPage = 1, endPage = 1, pageIndexes = [1], markdown = S ''### Pages''\<rparr>,
              \<lparr>startPage = 1, endPage = 2, pageIndexes = [1, 2], markdown = S ''### Pages''\<rparr>].
      index (map demo_page [1, 2] ! 1) \<in> set (pageIndexes w))"
proof -
  obtain tr' where r: "summarize_windows demo_env (map demo_page [1, 2]) 3 [] =
     (Inr [\<lparr>startPage = 1, endPage = 1, pageIndexes = [1], markdown = S ''### Pages''\<rparr>,
          \<lparr>startPage = 1, endPage = 2, pageIndexes = [1, 2], markdown = S ''### Pages''\<rparr>], tr')"
    by (simp add: demo_eval)
  have n: "map demo_page [1, 2] \<noteq> []" by simp
  note t = windows_cover_every_page [OF n r]
  from t have "\<exists>w\<in>set [\<lparr>startPage = 1, endPage = 1, pageIndexes = [1], markdown = S ''### Pages''\<rparr>,
              \<lparr>startPage = 1, endPage = 2, pageIndexes = [1, 2], markdown = S ''### Pages''\<rparr>].
      index (map demo_page [1, 2] ! 0) \<in> set (pageIndexes w)"
    by fastforce
  moreover from t have "\<exists>w\<in>set [\<lparr>startPage = 1, endPage = 1, pageIndexes = [1], markdown = S ''### Pages''\<rparr>,
              \<lparr>startPage = 1, endPage = 2, pageIndexes = [1, 2], markdown = S ''### Pages''\<rparr>].
      index (map demo_page [1, 2] ! 1) \<in> set (pageIndexes w)"
    by fastforce
  ultimately show ?thesis using n r by simp
qed

lemma window_plan_5_5: "window_plan 5 5 = [(0, 3), (0, 4), (0, 5), (1, 5), (2, 5)]"
  by (simp add: window_plan_def Let_def upt_rec [of _ "numeral _"])

text \<open>
  C2 fails: with five pages and window size 5 (left = 2, right = 2) the five anchors give
  five different ranges, so five windows are emitted, not one.
\<close>

theorem five_pages_size_five_counterexample:
  "map_sum id (map pageIndexes) (fst (summarize_windows demo_env (map demo_page [1, 2, 3, 4, 5]) 5 []))
     = Inr ([1, 2, 3] # [1, 2, 3, 4] # [1, 2, 3, 4, 5] # [2, 3, 4, 5] # [3, 4, 5] # [])"
  by (simp add: demo_eval)

text \<open>
  C2 as amended. For five pages and window size 5 the planner emits five windows, for
  the ranges [0,3), [0,4), [0,5), [1,5) and [2,5); the returned list is these windows
  sorted by \<open>startPage\<close>.
\<close>

theorem five_pages_size_five_windows:
  assumes "length pages = 5"
    and "summarize_windows env pages 5 tr = (Inr windows, tr')"
  shows "length windows = 5 \<and>
         (\<exists>new. windows = sort_key startPage new \<and>
            map pageIndexes new =
              map (\<lambda>(s, e). map index (py_slice pages s e)) [(0, 3), (0, 4), (0, 5), (1, 5), (2, 5)])"
proof -
  from assms(1) have ne: "pages \<noteq> []" by auto
  from summarize_windows_plan [OF ne assms(2)] obtain new where
    ws: "windows = sort_key startPage new"
    and rel: "list_all2 (\<lambda>r w. window_of pages r w) [(0, 3), (0, 4), (0, 5), (1, 5), (2, 5)] new"
    by (auto simp: assms(1) window_plan_5_5)
  have idx: "pageIndexes w = map index (py_slice pages s e)"
    if "window_of pages (s, e) w" for s e w
    using that make_window_fields [of "py_slice pages s e" "markdown w" w]
    by (simp add: window_of_def)
  from rel obtain w1 w2 w3 w4 w5 where
    new: "new = [w1, w2, w3, w4, w5]"
    and w: "window_of pages (0, 3) w1" "window_of pages (0, 4) w2" "window_of pages (0, 5) w3"
      "window_of pages (1, 5) w4" "window_of pages (2, 5) w5"
    by (auto simp: list_all2_Cons1)
  have "map pageIndexes new =
      map (\<lambda>(s, e). map index (py_slice pages s e)) [(0, 3), (0, 4), (0, 5), (1, 5), (2, 5)]"
    using w by (simp add: new idx)
  moreover have "length windows = 5" by (simp add: ws new)
  ultimately show ?thesis using ws by blast
qed

theorem five_pages_size_five_windows_witness:
  "length (map demo_page [1, 2, 3, 4, 5]) = 5 \<and>
   map_sum id length (fst (summarize_windows demo_env (map demo_page [1, 2, 3, 4, 5]) 5 [])) = Inr 5"
proof -
  obtain ws tr' where
    r: "summarize_windows demo_env (map demo_page [1, 2, 3, 4, 5]) 5 [] = (Inr ws, tr')"
    by (simp add: demo_eval)
  have n: "length (map demo_page [1, 2, 3, 4, 5]) = 5" by simp
  from five_pages_size_five_windows [OF n r] r show ?thesis by simp
qed

section \<open>Properties of quiz parsing\<close>

lemma coerce_index_cases:
  "coerce_index env v = Inr k \<Longrightarrow> py_int env v = Inr k \<or> (k = 0 \<and> (py_int env v = Inl TypeError \<or> py_int env v = Inl ValueError))"
proof (cases "py_int env v")
  case (Inl e)
  assume "coerce_index env v = Inr k"
  with Inl show ?thesis by (cases e) (simp_all add: coerce_index_def)
next
  case (Inr i)
  assume "coerce_index env v = Inr k"
  with Inr show ?thesis by (simp add: coerce_index_def)
qed

lemma coerce_index_caught:
  "py_int env v = Inl TypeError \<or> py_int env v = Inl ValueError \<Longrightarrow> coerce_index env v = Inr 0"
  by (auto simp: coerce_index_def)

lemma quiz_item_dropped:
  "length (item_options d) < 4 \<Longrightarrow> quiz_item env idx (JDict d) = Inr None"
  by (simp add: quiz_item_def)

lemma quiz_item_kept:
  assumes "quiz_item env idx item = Inr (Some q)"
  shows "\<exists>d k. item = JDict d \<and> 4 \<le> length (item_options d) \<and>
           coerce_index env (get_default d (S ''correctIndex'') (get d (S ''correct''))) = Inr k \<and>
           options q = take 4 (item_options d) \<and> correctIndex q = max 0 (min k 3)"
proof (cases item)
  case (JDict d)
  with assms have len: "4 \<le> length (item_options d)"
    by (auto simp: quiz_item_def Let_def split: if_splits)
  then have "int (length (take 4 (item_options d))) - 1 = 3" by simp
  with assms JDict len show ?thesis
    by (auto simp: quiz_item_def Let_def split: if_splits sum.splits)
qed (use assms in \<open>simp_all add: quiz_item_def\<close>)

lemma quiz_item_well_formed:
  assumes "quiz_item env idx item = Inr (Some q)"
  shows "length (options q) = 4 \<and> 0 \<le> correctIndex q \<and> correctIndex q \<le> 3"
  using quiz_item_kept [OF assms] by auto

lemma quiz_loop_well_formed:
  assumes "quiz_loop env idx items qs = Inr qs'"
    and "\<forall>q\<in>set qs. length (options q) = 4 \<and> 0 \<le> correctIndex q \<and> correctIndex q \<le> 3"
  shows "\<forall>q\<in>set qs'. length (options q) = 4 \<and> 0 \<le> correctIndex q \<and> correctIndex q \<le> 3"
  using assms
proof (induction items arbitrary: idx qs)
  case Nil
  then show ?case by simp
next
  case (Cons item rest)
  show ?case
  proof (cases "quiz_item env idx item")
    case (Inl e)
    with Cons.prems show ?thesis by simp
  next
    case (Inr r)
    show ?thesis
    proof (cases r)
      case None
      with Inr Cons.prems have "quiz_loop env (Suc idx) rest qs = Inr qs'" by simp
      from Cons.IH [OF this Cons.prems(2)] show ?thesis .
    next
      case (Some q)
      with Inr Cons.prems have l: "quiz_loop env (Suc idx) rest (qs @ [q]) = Inr qs'" by simp
      from Inr Some have "quiz_item env idx item = Inr (Some q)" by simp
      from quiz_item_well_formed [OF this] Cons.prems(2)
      have "\<forall>q\<in>set (qs @ [q]). length (options q) = 4 \<and> 0 \<le> correctIndex q \<and> correctIndex q \<le> 3"
        by auto
      from Cons.IH [OF l this] show ?thesis .
    qed
  qed
qed

lemma quiz_loop_all_dropped:
  assumes "\<forall>i<length items. quiz_item env (idx + i) (items ! i) = Inr None"
  shows "quiz_loop env idx items qs = Inr qs"
  using assms
proof (induction items arbitrary: idx)
  case Nil
  show ?case by simp
next
  case (Cons item rest)
  from Cons.prems have "quiz_item env idx item = Inr None" by force
  moreover have "\<forall>i<length rest. quiz_item env (Suc idx + i) (rest ! i) = Inr None"
    using Cons.prems by force
  ultimately show ?case using Cons.IH by simp
qed

lemma parse_quiz_payload_questions:
  assumes "parse_quiz_payload env raw = Inr r"
  shows "\<exists>data items. json_loads env raw = Some data \<and> questions_container data = Some items \<and>
           quiz_loop env 0 items [] = Inr (questions r) \<and> questions r \<noteq> []"
  using assms
  by (auto simp: parse_quiz_payload_def split: option.splits sum.splits if_splits)

text \<open>
  C3. Every question of an accepted quiz response has exactly four options and an index
  in [0,3]. An item with fewer than four options is dropped without an error; a longer
  option list is cut to its first four; an index for which \<open>int\<close> raises \<open>TypeError\<close> or
  \<open>ValueError\<close> (as for the string abc) becomes 0; an index above 3 (as 99) becomes 3.
\<close>

theorem quiz_questions_well_formed:
  "(\<forall>r. parse_quiz_payload env raw = Inr r \<longrightarrow>
      (\<forall>q\<in>set (questions r). length (options q) = 4 \<and> 0 \<le> correctIndex q \<and> correctIndex q \<le> 3)) \<and>
   (\<forall>idx d. length (item_options d) < 4 \<longrightarrow> quiz_item env idx (JDict d) = Inr None) \<and>
   (\<forall>idx d q. quiz_item env idx (JDict d) = Inr (Some q) \<longrightarrow> options q = take 4 (item_options d)) \<and>
   (\<forall>v. py_int env v = Inl TypeError \<or> py_int env v = Inl ValueError \<longrightarrow> coerce_index env v = Inr 0) \<and>
   coerce_index env (JStr (S ''abc'')) = Inr 0 \<and>
   (\<forall>idx d q k. quiz_item env idx (JDict d) = Inr (Some q) \<and>
       coerce_index env (get_default d (S ''correctIndex'') (get d (S ''correct''))) = Inr k \<longrightarrow>
       correctIndex q = max 0 (min k 3)) \<and>
   (\<forall>idx d q. quiz_item env idx (JDict d) = Inr (Some q) \<and>
       get_default d (S ''correctIndex'') (get d (S ''correct'')) = JInt 99 \<longrightarrow> correctIndex q = 3)"
proof (intro conjI allI impI)
  fix r assume "parse_quiz_payload env raw = Inr r"
  from parse_quiz_payload_questions [OF this] obtain items where
    "quiz_loop env 0 items [] = Inr (questions r)" by blast
  from quiz_loop_well_formed [OF this]
  show "\<forall>q\<in>set (questions r). length (options q) = 4 \<and> 0 \<le> correctIndex q \<and> correctIndex q \<le> 3"
    by simp
next
  fix idx d assume "length (item_options d) < 4"
  then show "quiz_item env idx (JDict d) = Inr None" by (rule quiz_item_dropped)
next
  fix idx d q assume "quiz_item env idx (JDict d) = Inr (Some q)"
  from quiz_item_kept [OF this] show "options q = take 4 (item_options d)" by auto
next
  fix v assume "py_int env v = Inl TypeError \<or> py_int env v = Inl ValueError"
  then show "coerce_index env v = Inr 0" by (rule coerce_index_caught)
next
  have "int_of_str env (S ''abc'') = None"
    by (simp add: int_of_str_def S_def strip_def lstrip_def rstrip_def is_space_def digit_value_def)
  then show "coerce_index env (JStr (S ''abc'')) = Inr 0" by (simp add: coerce_index_def)
next
  fix idx d q k
  assume a: "quiz_item env idx (JDict d) = Inr (Some q) \<and>
       coerce_index env (get_default d (S ''correctIndex'') (get d (S ''correct''))) = Inr k"
  from quiz_item_kept [OF a [THEN conjunct1]] a show "correctIndex q = max 0 (min k 3)" by auto
next
  fix idx d q
  assume a: "quiz_item env idx (JDict d) = Inr (Some q) \<and>
       get_default d (S ''correctIndex'') (get d (S ''correct'')) = JInt 99"
  from quiz_item_kept [OF a [THEN conjunct1]] a show "correctIndex q = 3"
    by (auto simp: coerce_index_def)
qed

lemmas quiz_eval =
  parse_quiz_payload_def questions_container_def quiz_item_def item_options_def coerce_index_def
  notes_of_def get_def get_default_def py_or_def default_question_text_def str_int_def
  int_of_str_def digit_value_def strip_def lstrip_def rstrip_def is_space_def S_def Let_def
  demo_env_def demo_quiz_text_def demo_quiz_json_def demo_summary_text_def
  demo_short_quiz_text_def demo_short_quiz_json_def

theorem quiz_questions_well_formed_witness:
  "parse_quiz_payload demo_env demo_quiz_text =
     Inr \<lparr>questions =
            [\<lparr>question = JStr ([47928, 51228, 32] @ S ''2''),
              options = [JInt 1, JInt 2, JInt 3, JInt 4], correctIndex = 3,
              explanation = JStr []\<rparr>,
             \<lparr>question = JStr ([47928, 51228, 32] @ S ''3''),
              options = [JInt 1, JInt 2, JInt 3, JInt 4], correctIndex = 0,
              explanation = JStr []\<rparr>],
          notes' = []\<rparr> \<and>
   list_all (\<lambda>q. length (options q) = 4 \<and> 0 \<le> correctIndex q \<and> correctIndex q \<le> 3)
     [\<lparr>question = JStr ([47928, 51228, 32] @ S ''2''),
       options = [JInt 1, JInt 2, JInt 3, JInt 4], correctIndex = 3,
       explanation = JStr []\<rparr>,
      \<lparr>question = JStr ([47928, 51228, 32] @ S ''3''),
       options = [JInt 1, JInt 2, JInt 3, JInt 4], correctIndex = 0,
       explanation = JStr []\<rparr>] \<and>
   length (item_options [(S ''options'', JList [JInt 1, JInt 2, JInt 3])]) < 4 \<and>
   quiz_item demo_env 0 (JDict [(S ''options'', JList [JInt 1, JInt 2, JInt 3])]) = Inr None \<and>
   py_int demo_env (JStr (S ''abc'')) = Inl ValueError \<and>
   coerce_index demo_env (JStr (S ''abc'')) = Inr 0"
proof -
  have p: "parse_quiz_payload demo_env demo_quiz_text =
     Inr \<lparr>questions =
            [\<lparr>question = JStr ([47928, 51228, 32] @ S ''2''),
              options = [JInt 1, JInt 2, JInt 3, JInt 4], correctIndex = 3,
              explanation = JStr []\<rparr>,
             \<lparr>question = JStr ([47928, 51228, 32] @ S ''3''),
              options = [JInt 1, JInt 2, JInt 3, JInt 4], correctIndex = 0,
              explanation = JStr []\<rparr>],
          notes' = []\<rparr>"
    by (simp add: quiz_eval)
  have l: "length (item_options [(S ''options'', JList [JInt 1, JInt 2, JInt 3])]) < 4"
    by (simp add: quiz_eval)
  have v: "py_int demo_env (JStr (S ''abc'')) = Inl ValueError"
    by (simp add: quiz_eval)
  note t = quiz_questions_well_formed [of demo_env demo_quiz_text]
  from t p have "\<forall>q\<in>set [\<lparr>question = JStr ([47928, 51228, 32] @ S ''2''),
              options = [JInt 1, JInt 2, JInt 3, JInt 4], correctIndex = 3,
              explanation = JStr []\<rparr>,
             \<lparr>question = JStr ([47928, 51228, 32] @ S ''3''),
              options = [JInt 1, JInt 2, JInt 3, JInt 4], correctIndex = 0,
              explanation = JStr []\<rparr>].
      length (options q) = 4 \<and> 0 \<le> correctIndex q \<and> correctIndex q \<le> 3"
    by simp
  then have a: "list_all (\<lambda>q. length (options q) = 4 \<and> 0 \<le> correctIndex q \<and> correctIndex q \<le> 3)
     [\<lparr>question = JStr ([47928, 51228, 32] @ S ''2''),
       options = [JInt 1, JInt 2, JInt 3, JInt 4], correctIndex = 3,
       explanation = JStr []\<rparr>,
      \<lparr>question = JStr ([47928, 51228, 32] @ S ''3''),
       options = [JInt 1, JInt 2, JInt 3, JInt 4], correctIndex = 0,
       explanation = JStr []\<rparr>]"
    by (simp only: list_all_iff)
  from t l have b: "quiz_item demo_env 0 (JDict [(S ''options'', JList [JInt 1, JInt 2, JInt 3])]) = Inr None"
    by blast
  from t v have c: "coerce_index demo_env (JStr (S ''abc'')) = Inr 0"
    by blast
  from p a l b v c show ?thesis by (intro conjI)
qed

lemma store_quiz_appends:
  assumes "store_quiz env st ref diff parsed w = (resp, w')"
  shows "questions resp = questions parsed \<and>
         (\<exists>s. quizzes w' = quizzes w @ [s] \<and> questions s = questions parsed)"
  using assms by (auto simp: store_quiz_def add_record_def Let_def)

lemma answer_quiz_parse_error:
  "parse_quiz_payload env raw = Inl e \<Longrightarrow>
     answer_quiz env st ref diff (Inr raw, tr) w = (Inl e, w\<lparr>calls := tr\<rparr>)"
  by (simp add: answer_quiz_def)

lemma answer_quiz_outcome:
  assumes "answer_quiz env st ref diff answer w = (res, w')"
  shows "(\<exists>e. res = Inl e \<and> quizzes w' = quizzes w) \<or>
         (\<exists>resp s. res = Inr resp \<and> questions resp \<noteq> [] \<and>
            quizzes w' = quizzes w @ [s] \<and> questions s = questions resp)"
proof (cases answer)
  case (Pair r tr)
  show ?thesis
  proof (cases r)
    case (Inl e)
    with Pair assms show ?thesis by (auto simp: answer_quiz_def)
  next
    case (Inr raw)
    show ?thesis
    proof (cases "parse_quiz_payload env raw")
      case (Inl e)
      with Pair Inr assms show ?thesis by (auto simp: answer_quiz_def)
    next
      case parsed: (Inr parsed)
      obtain resp w1 where st: "store_quiz env st ref diff parsed (w\<lparr>calls := tr\<rparr>) = (resp, w1)"
        by (cases "store_quiz env st ref diff parsed (w\<lparr>calls := tr\<rparr>)")
      with Pair Inr parsed assms have r: "res = Inr resp" "w' = w1"
        by (auto simp: answer_quiz_def)
      from parse_quiz_payload_questions [OF parsed] have "questions parsed \<noteq> []" by blast
      with store_quiz_appends [OF st] r show ?thesis by auto
    qed
  qed
qed

lemma generate_quiz_from_text_outcome:
  assumes "generate_quiz_from_text env payload w = (res, w')"
  shows "(\<exists>e. res = Inl e \<and> quizzes w' = quizzes w) \<or>
         (\<exists>resp s. res = Inr resp \<and> questions resp \<noteq> [] \<and>
            quizzes w' = quizzes w @ [s] \<and> questions s = questions resp)"
proof (cases "length (take MAX_SOURCE_CHARS (normalize_text (sourceText payload))) < 30")
  case True
  with assms show ?thesis by (auto simp: generate_quiz_from_text_def Let_def)
next
  case False
  with assms have
    "answer_quiz env (S ''text'')
       (S ''hash'', sha256_hexdigest env (take MAX_SOURCE_CHARS (normalize_text (sourceText payload))))
       (Some (QuizFromTextRequest.difficulty payload))
       (generate_with_gemini env
          (TextQuizPrompt (take MAX_SOURCE_CHARS (normalize_text (sourceText payload)))
             (QuizFromTextRequest.numQuestions payload) (QuizFromTextRequest.difficulty payload))
          (calls w)) w = (res, w')"
    by (simp add: generate_quiz_from_text_def Let_def)
  then show ?thesis by (rule answer_quiz_outcome)
qed

lemma generate_quiz_from_file_outcome:
  assumes "generate_quiz_from_file env payload w = (res, w')"
  shows "(\<exists>e. res = Inl e \<and> quizzes w' = quizzes w) \<or>
         (\<exists>resp s. res = Inr resp \<and> questions resp \<noteq> [] \<and>
            quizzes w' = quizzes w @ [s] \<and> questions s = questions resp)"
proof (cases "uploads w (QuizFromFileRequest.fileId payload)")
  case None
  with assms show ?thesis by (auto simp: generate_quiz_from_file_def)
next
  case (Some f)
  define extracted where "extracted =
     (if suffix f = S ''.pdf'' then extract_text_from_pdf f
      else if suffix f = S ''.pptx'' then extract_text_from_pptx f
      else Inl (HTTPException 400 (UnsupportedExtension (suffix f))))"
  show ?thesis
  proof (cases extracted)
    case (Inl e)
    with Some assms show ?thesis
      by (auto simp: generate_quiz_from_file_def Let_def extracted_def)
  next
    case (Inr body)
    show ?thesis
    proof (cases "body = []")
      case True
      with Inr Some assms show ?thesis
        by (auto simp: generate_quiz_from_file_def Let_def extracted_def)
    next
      case False
      with Inr Some assms have
        "answer_quiz env (S ''file'') (S ''fileId'', QuizFromFileRequest.fileId payload) None
           (generate_with_gemini env
              (FileQuizPrompt (take MAX_SOURCE_CHARS body) (QuizFromFileRequest.numQuestions payload))
              (calls w)) w = (res, w')"
        by (simp add: generate_quiz_from_file_def Let_def extracted_def)
      then show ?thesis by (rule answer_quiz_outcome)
    qed
  qed
qed

lemma parse_quiz_payload_all_dropped:
  assumes "json_loads env raw = Some data" "questions_container data = Some items"
    and "\<forall>i<length items. quiz_item env i (items ! i) = Inr None"
  shows "parse_quiz_payload env raw = Inl (HTTPException 500 NoQuestionsFound)"
proof -
  have "quiz_loop env 0 items [] = Inr []"
    using assms(3) by (intro quiz_loop_all_dropped) simp
  with assms(1,2) show ?thesis by (simp add: parse_quiz_payload_def)
qed

text \<open>
  C8. A parsed quiz always has a question. When every item is dropped (as when each has
  fewer than four options) parsing raises the HTTP error, the request ends with that
  error and the quiz store stays as it was; a request that returns a quiz returns and
  stores one with at least one question.
\<close>

theorem empty_quiz_is_rejected:
  "(\<forall>r. parse_quiz_payload env raw = Inr r \<longrightarrow> questions r \<noteq> []) \<and>
   (\<forall>data items. json_loads env raw = Some data \<and> questions_container data = Some items \<and>
       (\<forall>i<length items. quiz_item env i (items ! i) = Inr None) \<longrightarrow>
       parse_quiz_payload env raw = Inl (HTTPException 500 NoQuestionsFound)) \<and>
   (\<forall>data items. json_loads env raw = Some data \<and> questions_container data = Some items \<and>
       (\<forall>item\<in>set items. \<exists>d. item = JDict d \<and> length (item_options d) < 4) \<longrightarrow>
       parse_quiz_payload env raw = Inl (HTTPException 500 NoQuestionsFound)) \<and>
   (\<forall>e st ref diff tr. parse_quiz_payload env raw = Inl e \<longrightarrow>
       answer_quiz env st ref diff (Inr raw, tr) w = (Inl e, w\<lparr>calls := tr\<rparr>)) \<and>
   (\<forall>payload res w'. generate_quiz_from_text env payload w = (res, w') \<longrightarrow>
       (\<exists>e. res = Inl e \<and> quizzes w' = quizzes w) \<or>
       (\<exists>resp s. res = Inr resp \<and> questions resp \<noteq> [] \<and>
          quizzes w' = quizzes w @ [s] \<and> questions s = questions resp)) \<and>
   (\<forall>payload res w'. generate_quiz_from_file env payload w = (res, w') \<longrightarrow>
       (\<exists>e. res = Inl e \<and> quizzes w' = quizzes w) \<or>
       (\<exists>resp s. res = Inr resp \<and> questions resp \<noteq> [] \<and>
          quizzes w' = quizzes w @ [s] \<and> questions s = questions resp))"
proof (intro conjI allI impI)
  fix r assume "parse_quiz_payload env raw = Inr r"
  from parse_quiz_payload_questions [OF this] show "questions r \<noteq> []" by blast
next
  fix data items
  assume "json_loads env raw = Some data \<and> questions_container data = Some items \<and>
       (\<forall>i<length items. quiz_item env i (items ! i) = Inr None)"
  then show "parse_quiz_payload env raw = Inl (HTTPException 500 NoQuestionsFound)"
    using parse_quiz_payload_all_dropped by blast
next
  fix data items
  assume a: "json_loads env raw = Some data \<and> questions_container data = Some items \<and>
       (\<forall>item\<in>set items. \<exists>d. item = JDict d \<and> length (item_options d) < 4)"
  have "\<forall>i<length items. quiz_item env i (items ! i) = Inr None"
  proof (intro allI impI)
    fix i assume "i < length items"
    then have "items ! i \<in> set items" by simp
    with a obtain d where "items ! i = JDict d" "length (item_options d) < 4" by blast
    then show "quiz_item env i (items ! i) = Inr None" by (simp add: quiz_item_dropped)
  qed
  with a show "parse_quiz_payload env raw = Inl (HTTPException 500 NoQuestionsFound)"
    using parse_quiz_payload_all_dropped by blast
next
  fix e st ref diff tr assume "parse_quiz_payload env raw = Inl e"
  then show "answer_quiz env st ref diff (Inr raw, tr) w = (Inl e, w\<lparr>calls := tr\<rparr>)"
    by (rule answer_quiz_parse_error)
next
  fix payload res w' assume "generate_quiz_from_text env payload w = (res, w')"
  then show "(\<exists>e. res = Inl e \<and> quizzes w' = quizzes w) \<or>
       (\<exists>resp s. res = Inr resp \<and> questions resp \<noteq> [] \<and>
          quizzes w' = quizzes w @ [s] \<and> questions s = questions resp)"
    by (rule generate_quiz_from_text_outcome)
next
  fix payload res w' assume "generate_quiz_from_file env payload w = (res, w')"
  then show "(\<exists>e. res = Inl e \<and> quizzes w' = quizzes w) \<or>
       (\<exists>resp s. res = Inr resp \<and> questions resp \<noteq> [] \<and>
          quizzes w' = quizzes w @ [s] \<and> questions s = questions resp)"
    by (rule generate_quiz_from_file_outcome)
qed

lemmas handler_eval =
  generate_quiz_from_text_def answer_quiz_def store_quiz_def add_record_def
  generate_with_gemini_def clean_answer_def normalize_text_def MAX_SOURCE_CHARS_def NUL_def SPACE_def LF_def CR_def
  demo_short_env_def demo_text_request_def demo_world_def

theorem empty_quiz_is_rejected_witness:
  "json_loads demo_short_env demo_short_quiz_text = Some demo_short_quiz_json \<and>
   questions_container demo_short_quiz_json =
     Some [JDict [(S ''options'', JList [JStr (S ''a''), JStr (S ''b''), JStr (S ''c'')])]] \<and>
   length (item_options [(S ''options'', JList [JStr (S ''a''), JStr (S ''b''), JStr (S ''c'')])]) < 4 \<and>
   parse_quiz_payload demo_short_env demo_short_quiz_text = Inl (HTTPException 500 NoQuestionsFound) \<and>
   fst (generate_quiz_from_text demo_short_env demo_text_request demo_world) =
     Inl (HTTPException 500 NoQuestionsFound) \<and>
   quizzes (snd (generate_quiz_from_text demo_short_env demo_text_request demo_world)) =
     quizzes demo_world"
proof -
  note t = empty_quiz_is_rejected [of demo_short_env demo_short_quiz_text demo_world]
  have j: "json_loads demo_short_env demo_short_quiz_text = Some demo_short_quiz_json"
    by (simp add: quiz_eval demo_short_env_def)
  have c: "questions_container demo_short_quiz_json =
     Some [JDict [(S ''options'', JList [JStr (S ''a''), JStr (S ''b''), JStr (S ''c'')])]]"
    by (simp add: quiz_eval)
  have l: "length (item_options [(S ''options'', JList [JStr (S ''a''), JStr (S ''b''), JStr (S ''c'')])]) < 4"
    by (simp add: quiz_eval)
  from l have "\<forall>item\<in>set [JDict [(S ''options'', JList [JStr (S ''a''), JStr (S ''b''), JStr (S ''c'')])]].
      \<exists>d. item = JDict d \<and> length (item_options d) < 4"
    by simp
  with t j c have p: "parse_quiz_payload demo_short_env demo_short_quiz_text =
      Inl (HTTPException 500 NoQuestionsFound)"
    by blast
  obtain w' where g: "generate_quiz_from_text demo_short_env demo_text_request demo_world =
      (Inl (HTTPException 500 NoQuestionsFound), w')"
    by (simp add: handler_eval p [unfolded demo_short_env_def] quiz_eval)
  with t have "quizzes w' = quizzes demo_world" by blast
  with g j c l p show ?thesis by simp
qed

section \<open>Properties of the note store and of the cache test\<close>

lemma read_None:
  "files (path_for env file_id) = None \<or> files (path_for env file_id) = Some Unreadable \<or>
   files (path_for env file_id) = Some Malformed \<Longrightarrow> read env files file_id = Inr None"
  by (auto simp: read_def)

lemma read_raises_only_undecodable:
  "read env files file_id = Inl e \<Longrightarrow>
     files (path_for env file_id) = Some Undecodable \<and> e = UnicodeDecodeError"
  by (auto simp: read_def split: option.splits note_file.splits)

lemma read_save: "read env (save env files file_id payload) file_id = Inr (Some payload)"
  by (simp add: read_def save_def write'_def)

lemma truthy_note_record: "truthy (note_record file_id created_at now window_size pages windows md)"
  by (simp add: note_record_def)

lemma regenerate_note_saves:
  assumes "regenerate_note env payload existing w = (Inr doc, w')"
  shows "note_files w' = save env (note_files w) (fileId payload) doc \<and> truthy doc"
  using assms
  by (auto simp: regenerate_note_def Let_def truthy_note_record
           split: option.splits sum.splits if_splits prod.splits)

text \<open>
  C10 fails on the code: a note file whose bytes are no UTF-8 makes \<open>read\<close> raise, and
  with it every request for the learning note of that file id. (For an absent file, an
  \<open>OSError\<close> and a text that is no JSON \<open>read\<close> returns \<open>None\<close>: \<open>read_None\<close>.)
\<close>

theorem read_undecodable_note_raises:
  "read demo_env [path_for demo_env (S ''lecture1.pdf'') \<mapsto> Undecodable] (S ''lecture1.pdf'')
     = Inl UnicodeDecodeError \<and>
   fst (generate_learning_note demo_env demo_note_request
          (demo_notes_world\<lparr>note_files := [path_for demo_env (S ''lecture1.pdf'') \<mapsto> Undecodable]\<rparr>))
     = Inl UnicodeDecodeError \<and>
   get_learning_note demo_env (S ''lecture1.pdf'')
     (demo_notes_world\<lparr>note_files := [path_for demo_env (S ''lecture1.pdf'') \<mapsto> Undecodable]\<rparr>)
     = Inl UnicodeDecodeError"
  by (simp add: read_def generate_learning_note_def get_learning_note_def demo_note_request_def)

text \<open>
  C5. When \<open>read\<close> returns a stored note (a value that is true, as every saved record is)
  and \<open>force\<close> is not set, the handler returns that value and leaves the world as it
  was: no remote call is recorded and no note file is written. So a request that
  returned a record, repeated without \<open>force\<close>, returns the same record again.
\<close>

theorem cached_note_is_returned:
  "(\<forall>stored. read env (note_files w) (fileId payload) = Inr (Some stored) \<and> truthy stored \<and>
       \<not> force payload \<longrightarrow>
       generate_learning_note env payload w = (Inr stored, w) \<and>
       calls (snd (generate_learning_note env payload w)) = calls w \<and>
       note_files (snd (generate_learning_note env payload w)) = note_files w) \<and>
   (\<forall>first doc w1. generate_learning_note env first w = (Inr doc, w1) \<and>
       fileId first = fileId payload \<and> \<not> force payload \<longrightarrow>
       generate_learning_note env payload w1 = (Inr doc, w1))"
proof -
  have hit: "generate_learning_note env payload w = (Inr stored, w)"
    if "read env (note_files w) (fileId payload) = Inr (Some stored)" "truthy stored"
      "\<not> force payload" for stored
    using that by (simp add: generate_learning_note_def)
  have again: "generate_learning_note env payload w1 = (Inr doc, w1)"
    if g: "generate_learning_note env first w = (Inr doc, w1)"
      and f: "fileId first = fileId payload" "\<not> force payload" for first doc w1
  proof -
    have "read env (note_files w1) (fileId first) = Inr (Some doc) \<and> truthy doc"
    proof (cases "read env (note_files w) (fileId first)")
      case (Inl e)
      with g show ?thesis by (simp add: generate_learning_note_def)
    next
      case (Inr existing)
      show ?thesis
      proof (cases "\<exists>v. existing = Some v \<and> truthy v \<and> \<not> force first")
        case True
        with g Inr show ?thesis by (auto simp: generate_learning_note_def)
      next
        case False
        with g Inr have "regenerate_note env first existing w = (Inr doc, w1)"
          by (auto simp: generate_learning_note_def split: option.splits if_splits)
        from regenerate_note_saves [OF this] show ?thesis by (simp add: read_save)
      qed
    qed
    with f show ?thesis by (simp add: generate_learning_note_def)
  qed
  show ?thesis
  proof (intro conjI allI impI)
    fix stored
    assume a: "read env (note_files w) (fileId payload) = Inr (Some stored) \<and> truthy stored \<and>
       \<not> force payload"
    with hit [of stored] show "generate_learning_note env payload w = (Inr stored, w)" by simp
    with hit [of stored] a show "calls (snd (generate_learning_note env payload w)) = calls w"
      and "note_files (snd (generate_learning_note env payload w)) = note_files w"
      by simp_all
  next
    fix first doc w1
    assume "generate_learning_note env first w = (Inr doc, w1) \<and>
       fileId first = fileId payload \<and> \<not> force payload"
    with again [of first doc w1] show "generate_learning_note env payload w1 = (Inr doc, w1)"
      by simp
  qed
qed

theorem cached_note_is_returned_witness:
  "read demo_env (note_files demo_cached_world) (fileId demo_note_request) = Inr (Some demo_stored_note) \<and>
   truthy demo_stored_note \<and> \<not> force demo_note_request \<and>
   generate_learning_note demo_env demo_note_request demo_cached_world =
     (Inr demo_stored_note, demo_cached_world)"
proof -
  have r: "read demo_env (note_files demo_cached_world) (fileId demo_note_request) =
      Inr (Some demo_stored_note)"
    by (simp add: read_def demo_cached_world_def demo_note_request_def)
  have t: "truthy demo_stored_note"
    by (simp add: demo_stored_note_def note_record_def)
  have f: "\<not> force demo_note_request"
    by (simp add: demo_note_request_def)
  from cached_note_is_returned [of demo_env demo_cached_world demo_note_request] r t f
  show ?thesis by blast
qed

section \<open>Failures of the remote model during note generation\<close>

lemma stage_ok_refl: "stage_ok env tr (r, tr)"
  by (simp add: stage_ok_def)

lemma stage_ok_trans:
  assumes "stage_ok env tr (Inr x, tr1)" "stage_ok env tr1 out"
  shows "stage_ok env tr (fst out, snd out)"
proof -
  from assms(1) obtain n1 where n1: "tr1 = tr @ n1" "\<forall>c\<in>set n1. \<not> failed_call env c"
    by (auto simp: stage_ok_def)
  from assms(2) obtain n2 where n2: "snd out = tr1 @ n2"
    "(\<forall>c\<in>set n2. \<not> failed_call env c) \<or> (\<exists>d. fst out = Inl (HTTPException 500 d))"
    by (auto simp: stage_ok_def)
  from n1 n2 have "snd out = tr @ (n1 @ n2) \<and>
     ((\<forall>c\<in>set (n1 @ n2). \<not> failed_call env c) \<or> (\<exists>d. fst out = Inl (HTTPException 500 d)))"
    by auto
  then show ?thesis unfolding stage_ok_def by (metis fst_conv snd_conv)
qed

lemma generate_with_gemini_cases:
  "generate_with_gemini env p tr = (res, tr') \<Longrightarrow>
     tr' = tr @ [(p, remote env tr p)] \<and>
     ((res = Inl (HTTPException 500 GeminiCallFailed) \<and>
        (remote env tr p = Raises \<or> remote env tr p = Text [])) \<or>
      (\<exists>raw. remote env tr p = Text raw \<and> raw \<noteq> [] \<and> res = Inr (clean_answer raw)))"
  by (auto simp: generate_with_gemini_def Let_def split: response.splits if_splits)

lemma summarize_single_page_ok: "stage_ok env tr (summarize_single_page env lbl body tr)"
proof -
  obtain res tr' where g: "generate_with_gemini env (PageSummaryPrompt lbl body) tr = (res, tr')"
    by (cases "generate_with_gemini env (PageSummaryPrompt lbl body) tr")
  note c = generate_with_gemini_cases [OF g]
  show ?thesis
  proof (cases res)
    case (Inl e)
    with c g show ?thesis by (auto simp: summarize_single_page_def stage_ok_def)
  next
    case (Inr raw)
    with c obtain t where t: "remote env tr (PageSummaryPrompt lbl body) = Text t" "t \<noteq> []"
      "raw = clean_answer t" by auto
    have out: "summarize_single_page env lbl body tr = (parse_page_summary env raw, tr')"
      using g Inr by (simp add: summarize_single_page_def)
    show ?thesis
    proof (cases "json_loads env raw")
      case None
      then have "parse_page_summary env raw = Inl (HTTPException 500 (PageSummaryJsonParseFailed raw))"
        by (simp add: parse_page_summary_def)
      with out c show ?thesis by (auto simp: stage_ok_def)
    next
      case (Some v)
      with t have "\<not> failed_call env (PageSummaryPrompt lbl body, Text t)" by simp
      with out c t show ?thesis by (auto simp: stage_ok_def)
    qed
  qed
qed

lemma summarize_window_block_ok: "stage_ok env tr (summarize_window_block env ps tr)"
proof -
  obtain res tr' where g: "generate_with_gemini env (build_window_prompt ps) tr = (res, tr')"
    by (cases "generate_with_gemini env (build_window_prompt ps) tr")
  note c = generate_with_gemini_cases [OF g]
  show ?thesis
  proof (cases res)
    case (Inl e)
    with c g show ?thesis by (auto simp: summarize_window_block_def stage_ok_def)
  next
    case (Inr raw)
    with c obtain t where t: "remote env tr (build_window_prompt ps) = Text t" "t \<noteq> []" by auto
    then have "\<not> failed_call env (build_window_prompt ps, Text t)"
      by (simp add: build_window_prompt_def)
    with g Inr c t show ?thesis by (auto simp: summarize_window_block_def stage_ok_def)
  qed
qed

lemma summarize_pages_ok: "stage_ok env tr (summarize_pages env chunks pages tr)"
proof (induction chunks arbitrary: pages tr)
  case Nil
  show ?case by (simp add: stage_ok_refl)
next
  case (Cons c rest)
  show ?case
  proof (cases "strip (text' c) = []")
    case True
    with Cons.IH show ?thesis by simp
  next
    case False
    obtain res tr1 where
      s: "summarize_single_page env (label c) (take MAX_PAGE_PROMPT_CHARS (strip (text' c))) tr = (res, tr1)"
      by (cases "summarize_single_page env (label c) (take MAX_PAGE_PROMPT_CHARS (strip (text' c))) tr")
    have ok: "stage_ok env tr (res, tr1)"
      using summarize_single_page_ok [of env tr "label c" "take MAX_PAGE_PROMPT_CHARS (strip (text' c))"] s
      by simp
    show ?thesis
    proof (cases res)
      case (Inl e)
      with False s ok show ?thesis by (simp add: Let_def stage_ok_def)
    next
      case (Inr sm)
      have "stage_ok env tr1 (summarize_pages env rest
              (pages @ [\<lparr>index = index c, label = label c,
                         text' = clip_text (strip (text' c)) MAX_PAGE_TEXT_CHARS, summary = sm\<rparr>]) tr1)"
        by (rule Cons.IH)
      from stage_ok_trans [OF ok [unfolded Inr] this] False s Inr show ?thesis
        by (simp add: Let_def)
    qed
  qed
qed

lemma windows_loop_ok: "stage_ok env tr (windows_loop env pages left right idxs seen windows tr)"
proof (induction idxs arbitrary: seen windows tr)
  case Nil
  show ?case by (simp add: stage_ok_refl)
next
  case (Cons idx rest)
  define start where "start = max 0 (int idx - left)"
  define end' where "end' = min (int (length pages)) (int idx + right + 1)"
  show ?case
  proof (cases "end' - start \<le> 0 \<or> (start, end') \<in> seen")
    case True
    then have "windows_loop env pages left right (idx # rest) seen windows tr =
        windows_loop env pages left right rest seen windows tr"
      unfolding start_def end'_def by (rule windows_loop_skip)
    with Cons.IH show ?thesis by simp
  next
    case False
    then have ne: "\<not> end' - start \<le> 0" "(start, end') \<notin> seen" by auto
    note step = windows_loop_emit [OF start_def end'_def ne]
    obtain res tr1 where b: "summarize_window_block env (py_slice pages start end') tr = (res, tr1)"
      by (cases "summarize_window_block env (py_slice pages start end') tr")
    have ok: "stage_ok env tr (res, tr1)"
      using summarize_window_block_ok [of env tr "py_slice pages start end'"] b by simp
    show ?thesis
    proof (cases res)
      case (Inl e)
      with b have eq: "windows_loop env pages left right (idx # rest) seen windows tr = (Inl e, tr1)"
        by (simp add: step del: windows_loop.simps)
      from ok Inl show ?thesis unfolding eq by (simp add: stage_ok_def)
    next
      case (Inr md)
      show ?thesis
      proof (cases "make_window (py_slice pages start end') md")
        case (Inl e)
        with b Inr have eq: "windows_loop env pages left right (idx # rest) seen windows tr = (Inl e, tr1)"
          by (simp add: step del: windows_loop.simps)
        from ok Inr show ?thesis unfolding eq by (auto simp: stage_ok_def)
      next
        case w: (Inr w)
        with b Inr have eq: "windows_loop env pages left right (idx # rest) seen windows tr =
            windows_loop env pages left right rest (insert (start, end') seen) (windows @ [w]) tr1"
          by (simp add: step del: windows_loop.simps)
        have "stage_ok env tr1 (windows_loop env pages left right rest
                (insert (start, end') seen) (windows @ [w]) tr1)"
          by (rule Cons.IH)
        from stage_ok_trans [OF ok [unfolded Inr] this] show ?thesis unfolding eq by simp
      qed
    qed
  qed
qed

lemma summarize_windows_ok: "stage_ok env tr (summarize_windows env pages window_size tr)"
proof (cases "pages = []")
  case True
  then show ?thesis by (simp add: summarize_windows_def stage_ok_refl)
next
  case False
  define l where "l = max 1 (min window_size (int (length pages))) div 2"
  define r where "r = max 1 (min window_size (int (length pages))) - l - 1"
  obtain res tr1 where w: "windows_loop env pages l r [0..<length pages] {} [] tr = (res, tr1)"
    by (cases "windows_loop env pages l r [0..<length pages] {} [] tr")
  have "stage_ok env tr (res, tr1)"
    using windows_loop_ok [of env tr pages l r "[0..<length pages]" "{}" "[]"] w by simp
  with False w show ?thesis
    by (cases res) (auto simp: summarize_windows_def Let_def l_def r_def stage_ok_def)
qed

lemma regenerate_note_ok:
  assumes "regenerate_note env payload existing w = (res, w')"
  shows "stage_ok env (calls w) (res, calls w') \<and> (\<forall>e. res = Inl e \<longrightarrow> note_files w' = note_files w)"
proof (cases "uploads w (fileId payload)")
  case None
  with assms show ?thesis by (auto simp: regenerate_note_def stage_ok_def)
next
  case (Some f)
  show ?thesis
  proof (cases "extract_page_chunks f")
    case (Inl e)
    with Some assms show ?thesis by (auto simp: regenerate_note_def stage_ok_def)
  next
    case (Inr chunks)
    show ?thesis
    proof (cases "chunks = []")
      case True
      with Some Inr assms show ?thesis by (auto simp: regenerate_note_def stage_ok_def)
    next
      case ne: False
      obtain r1 tr1 where p: "summarize_pages env chunks [] (calls w) = (r1, tr1)"
        by (cases "summarize_pages env chunks [] (calls w)")
      have ok1: "stage_ok env (calls w) (r1, tr1)"
        using summarize_pages_ok [of env "calls w" chunks "[]"] p by simp
      show ?thesis
      proof (cases r1)
        case (Inl e)
        with Some Inr ne p assms have "res = Inl e" "w' = w\<lparr>calls := tr1\<rparr>"
          by (auto simp: regenerate_note_def)
        with ok1 Inl show ?thesis by (simp add: stage_ok_def)
      next
        case pages: (Inr pages)
        show ?thesis
        proof (cases "pages = []")
          case True
          with Some Inr ne p pages assms have
            "res = Inl (HTTPException 400 NoSummarizableContent)" "w' = w\<lparr>calls := tr1\<rparr>"
            by (auto simp: regenerate_note_def)
          with ok1 pages show ?thesis by (auto simp: stage_ok_def)
        next
          case pne: False
          obtain r2 tr2 where sw: "summarize_windows env pages (windowSize payload) tr1 = (r2, tr2)"
            by (cases "summarize_windows env pages (windowSize payload) tr1")
          have ok2: "stage_ok env tr1 (r2, tr2)"
            using summarize_windows_ok [of env tr1 pages "windowSize payload"] sw by simp
          from stage_ok_trans [OF ok1 [unfolded pages] ok2]
          have ok: "stage_ok env (calls w) (r2, tr2)" by simp
          show ?thesis
          proof (cases r2)
            case (Inl e)
            with Some Inr ne p pages pne sw assms have "res = Inl e" "w' = w\<lparr>calls := tr2\<rparr>"
              by (auto simp: regenerate_note_def)
            with ok Inl show ?thesis by (simp add: stage_ok_def)
          next
            case ws: (Inr windows)
            show ?thesis
            proof (cases "prior_created_at existing")
              case (Inl e)
              with Some Inr ne p pages pne sw ws assms have "res = Inl e" "w' = w\<lparr>calls := tr2\<rparr>"
                by (auto simp: regenerate_note_def)
              with ok ws show ?thesis by (auto simp: stage_ok_def)
            next
              case c: (Inr created_at)
              with Some Inr ne p pages pne sw ws assms have "\<exists>doc. res = Inr doc" "calls w' = tr2"
                by (auto simp: regenerate_note_def Let_def)
              with ok ws show ?thesis by (auto simp: stage_ok_def)
            qed
          qed
        qed
      qed
    qed
  qed
qed

lemma generate_learning_note_ok:
  assumes "generate_learning_note env payload w = (res, w')"
  shows "stage_ok env (calls w) (res, calls w') \<and> (\<forall>e. res = Inl e \<longrightarrow> note_files w' = note_files w)"
proof (cases "read env (note_files w) (fileId payload)")
  case (Inl e)
  with assms show ?thesis by (auto simp: generate_learning_note_def stage_ok_def)
next
  case (Inr existing)
  show ?thesis
  proof (cases "\<exists>v. existing = Some v \<and> truthy v \<and> \<not> force payload")
    case True
    with assms Inr show ?thesis by (auto simp: generate_learning_note_def stage_ok_def)
  next
    case False
    with assms Inr have "regenerate_note env payload existing w = (res, w')"
      by (auto simp: generate_learning_note_def split: option.splits if_splits)
    then show ?thesis by (rule regenerate_note_ok)
  qed
qed

text \<open>
  C4. The remote calls of a request for a learning note are appended to the trace. If one
  of them raised, returned no text, or returned for a page summary a text that is no
  JSON, the request ends with an HTTP error of status 500 and the note files are as
  before; the note files are as before after any error, so the note is saved only once
  every page summary and every window merge has succeeded.
\<close>

theorem failed_remote_call_aborts_note:
  assumes "generate_learning_note env payload w = (res, w')"
  shows "\<exists>new. calls w' = calls w @ new \<and>
           ((\<exists>c\<in>set new. failed_call env c) \<longrightarrow>
              (\<exists>d. res = Inl (HTTPException 500 d)) \<and> note_files w' = note_files w) \<and>
           (\<forall>e. res = Inl e \<longrightarrow> note_files w' = note_files w) \<and>
           (note_files w' \<noteq> note_files w \<longrightarrow> (\<forall>c\<in>set new. \<not> failed_call env c))"
proof -
  from generate_learning_note_ok [OF assms] obtain new where
    new: "calls w' = calls w @ new"
      "(\<forall>c\<in>set new. \<not> failed_call env c) \<or> (\<exists>d. res = Inl (HTTPException 500 d))"
    and keep: "\<forall>e. res = Inl e \<longrightarrow> note_files w' = note_files w"
    by (auto simp: stage_ok_def)
  then show ?thesis by blast
qed

lemmas note_eval =
  generate_learning_note_def regenerate_note_def read_def save_def write'_def path_for_def
  extract_page_chunks_def extract_pdf_pages_def page_text_def enumerate_eq_zip
  upt_rec [of _ "numeral _"] upt_rec [of _ "Suc _"]
  summarize_single_page_def parse_page_summary_def stripped_nonempty_def str_of_def
  clip_text_def MAX_PAGE_PROMPT_CHARS_def MAX_PAGE_TEXT_CHARS_def
  normalize_text_def NUL_def SPACE_def LF_def CR_def
  prior_created_at_def note_record_def merge_markdown_def
  page_json_def window_json_def summary_json_def get_def py_or_def
  demo_eval demo_pdf_def demo_notes_world_def demo_note_request_def demo_force_request_def
  demo_cached_world_def demo_stored_note_def demo_failing_env_def
  demo_summary_text_def demo_summary_json_def demo_quiz_text_def demo_short_quiz_text_def

theorem failed_remote_call_aborts_note_witness:
  "fst (generate_learning_note demo_failing_env demo_note_request demo_notes_world) =
     Inl (HTTPException 500 GeminiCallFailed) \<and>
   calls (snd (generate_learning_note demo_failing_env demo_note_request demo_notes_world)) =
     calls demo_notes_world @
       [(PageSummaryPrompt (S ''Page 1'') (S ''alpha''), Text demo_summary_text),
        (PageSummaryPrompt (S ''Page 3'') (S ''gamma''), Raises)] \<and>
   failed_call demo_failing_env (PageSummaryPrompt (S ''Page 3'') (S ''gamma''), Raises) \<and>
   note_files (snd (generate_learning_note demo_failing_env demo_note_request demo_notes_world)) =
     note_files demo_notes_world"
proof -
  obtain w' where g: "generate_learning_note demo_failing_env demo_note_request demo_notes_world =
      (Inl (HTTPException 500 GeminiCallFailed), w')"
    and c: "calls w' = calls demo_notes_world @
       [(PageSummaryPrompt (S ''Page 1'') (S ''alpha''), Text demo_summary_text),
        (PageSummaryPrompt (S ''Page 3'') (S ''gamma''), Raises)]"
    by (simp add: note_eval)
  have f: "failed_call demo_failing_env (PageSummaryPrompt (S ''Page 3'') (S ''gamma''), Raises)"
    by simp
  from failed_remote_call_aborts_note [OF g] c f
  have "note_files w' = note_files demo_notes_world" by auto
  with g c f show ?thesis by simp
qed

section \<open>The generated note\<close>

lemma regenerate_note_record:
  assumes "regenerate_note env payload existing w = (Inr doc, w')"
  shows "\<exists>f chunks pages tr windows tr' created_at.
           uploads w (fileId payload) = Some f \<and> extract_page_chunks f = Inr chunks \<and>
           summarize_pages env chunks [] (calls w) = (Inr pages, tr) \<and> pages \<noteq> [] \<and>
           summarize_windows env pages (windowSize payload) tr = (Inr windows, tr') \<and>
           prior_created_at existing = Inr created_at \<and>
           doc = note_record (fileId payload) created_at (utc_now env) (windowSize payload)
                   pages windows (merge_markdown windows) \<and>
           calls w' = tr' \<and>
           note_files w' = save env (note_files w) (fileId payload) doc"
  using assms
  by (auto simp: regenerate_note_def Let_def split: option.splits sum.splits if_splits prod.splits)


lemma get_note_record:
  "get [(S ''fileId'', a), (S ''createdAt'', b), (S ''updatedAt'', c), (S ''pageCount'', d),
        (S ''windowSize'', e), (S ''pages'', f), (S ''windows'', g), (S ''markdown'', h)]
       (S ''createdAt'') = b"
  "get [(S ''fileId'', a), (S ''createdAt'', b), (S ''updatedAt'', c), (S ''pageCount'', d),
        (S ''windowSize'', e), (S ''pages'', f), (S ''windows'', g), (S ''markdown'', h)]
       (S ''updatedAt'') = c"
  "get [(S ''fileId'', a), (S ''createdAt'', b), (S ''updatedAt'', c), (S ''pageCount'', d),
        (S ''windowSize'', e), (S ''pages'', f), (S ''windows'', g), (S ''markdown'', h)]
       (S ''windows'') = g"
  by (simp_all add: get_def S_def)



text \<open>
  Every record the handler saves has a creation time, as the isoformat string of the clock
  is not empty; and a note file that is no JSON is regenerated like an absent one, with
  the clock reading as its creation time.
\<close>

lemma saved_note_has_created_at:
  assumes "regenerate_note env payload existing w = (Inr doc, w')" "utc_now env \<noteq> []"
  shows "\<exists>d. doc = JDict d \<and> truthy (get d (S ''createdAt'')) \<and>
           read env (note_files w') (fileId payload) = Inr (Some doc)"
proof -
  from regenerate_note_record [OF assms(1)] obtain pages windows created_at where
    doc: "doc = note_record (fileId payload) created_at (utc_now env) (windowSize payload)
                  pages windows (merge_markdown windows)"
    and files: "note_files w' = save env (note_files w) (fileId payload) doc"
    by blast
  from doc obtain d where d: "doc = JDict d"
    "get d (S ''createdAt'') = py_or created_at (JStr (utc_now env))"
    by (simp add: note_record_def get_note_record)
  from d(2) assms(2) have "truthy (get d (S ''createdAt''))"
    by (simp add: py_or_def)
  with d(1) files show ?thesis by (simp add: read_save)
qed

lemma malformed_note_is_regenerated:
  assumes "note_files w (path_for env (fileId payload)) = Some Malformed"
    and "generate_learning_note env payload w = (Inr doc, w')"
  shows "\<exists>d. doc = JDict d \<and> get d (S ''createdAt'') = JStr (utc_now env)"
proof -
  from assms(1) have "read env (note_files w) (fileId payload) = Inr None"
    by (simp add: read_None)
  with assms(2) have "regenerate_note env payload None w = (Inr doc, w')"
    by (simp add: generate_learning_note_def)
  from regenerate_note_record [OF this] obtain pages windows where
    "doc = note_record (fileId payload) JNull (utc_now env) (windowSize payload)
             pages windows (merge_markdown windows)"
    by (auto simp: prior_created_at_def)
  then show ?thesis by (simp add: note_record_def get_note_record py_or_def)
qed

section \<open>The page indexes of a window\<close>

lemma map_index_enumerate:
  "map index (map (\<lambda>(idx, x). \<lparr>index = int idx, label = l idx, text' = t x\<rparr>) (enumerate 1 xs)) =
     map int [1..<Suc (length xs)]"
  by (rule nth_equalityI) (simp_all add: nth_enumerate_eq split_def del: upt_Suc)

lemma extract_pdf_pages_indexes:
  assumes "extract_pdf_pages f = Inr chunks"
  shows "map index chunks = map int [1..<Suc (length chunks)]"
proof -
  from assms obtain ps where
    c: "chunks = map (\<lambda>(idx, p). \<lparr>index = int idx, label = S ''Page '' @ str_int (int idx),
                                   text' = normalize_text (page_text p)\<rparr>) (enumerate 1 ps)"
    by (auto simp: extract_pdf_pages_def split: sum.splits)
  then have "length chunks = length ps" by simp
  with map_index_enumerate [of "\<lambda>idx. S ''Page '' @ str_int (int idx)"
      "\<lambda>p. normalize_text (page_text p)" ps] c
  show ?thesis by (simp del: upt_Suc)
qed

lemma extract_pptx_slides_indexes:
  assumes "extract_pptx_slides f = Inr chunks"
  shows "map index chunks = map int [1..<Suc (length chunks)]"
proof (cases "zip_file f")
  case (Inl e)
  with assms show ?thesis by (simp add: extract_pptx_slides_def)
next
  case (Inr archive)
  define names where "names = sort (filter (\<lambda>name. startswith name (S ''ppt/slides/slide'') \<and>
                                                 endswith name (S ''.xml'')) (namelist archive))"
  from assms Inr have
    c: "chunks = map (\<lambda>(idx, name). \<lparr>index = int idx, label = S ''Slide '' @ str_int (int idx),
              text' = normalize_text (join [LF] (map unescape (text_nodes archive name)))\<rparr>)
            (enumerate 1 names)"
    by (simp add: extract_pptx_slides_def Let_def names_def)
  then have "length chunks = length names" by simp
  with map_index_enumerate [of "\<lambda>idx. S ''Slide '' @ str_int (int idx)"
      "\<lambda>name. normalize_text (join [LF] (map unescape (text_nodes archive name)))" names] c
  show ?thesis by (simp del: upt_Suc)
qed

lemma extract_page_chunks_indexes:
  assumes "extract_page_chunks f = Inr chunks"
  shows "map index chunks = map int [1..<Suc (length chunks)]"
proof (cases "suffix f = S ''.pdf''")
  case True
  with assms have "extract_pdf_pages f = Inr chunks" by (simp add: extract_page_chunks_def)
  then show ?thesis by (rule extract_pdf_pages_indexes)
next
  case False
  with assms have "extract_pptx_slides f = Inr chunks"
    by (simp add: extract_page_chunks_def Let_def split: if_splits)
  then show ?thesis by (rule extract_pptx_slides_indexes)
qed

lemma summarize_pages_indexes:
  "summarize_pages env chunks pages tr = (Inr pages', tr') \<Longrightarrow>
     map index pages' = map index pages @ map index (filter (\<lambda>c. strip (text' c) \<noteq> []) chunks)"
proof (induction chunks arbitrary: pages tr)
  case Nil
  then show ?case by simp
next
  case (Cons c rest)
  show ?case
  proof (cases "strip (text' c) = []")
    case True
    with Cons.prems have "summarize_pages env rest pages tr = (Inr pages', tr')" by simp
    from Cons.IH [OF this] True show ?thesis by simp
  next
    case False
    with Cons.prems obtain sm tr1 where
      "summarize_pages env rest
         (pages @ [\<lparr>index = index c, label = label c,
                    text' = clip_text (strip (text' c)) MAX_PAGE_TEXT_CHARS, summary = sm\<rparr>]) tr1 =
         (Inr pages', tr')"
      by (auto simp: Let_def split: prod.splits sum.splits)
    from Cons.IH [OF this] False show ?thesis by simp
  qed
qed

lemma summarize_windows_slices:
  assumes "pages \<noteq> []" "summarize_windows env pages window_size tr = (Inr windows, tr')"
    and "w \<in> set windows"
  shows "\<exists>s e. 0 \<le> s \<and> s < e \<and> e \<le> int (length pages) \<and>
           pageIndexes w = map index (py_slice pages s e)"
proof -
  from summarize_windows_plan [OF assms(1,2)] obtain new where
    ws: "windows = sort_key startPage new"
    and rel: "list_all2 (\<lambda>r w. window_of pages r w) (window_plan (length pages) window_size) new"
    by blast
  from assms(3) ws obtain j where j: "j < length new" "new ! j = w"
    by (auto simp: in_set_conv_nth)
  with rel have w: "window_of pages (window_plan (length pages) window_size ! j) w"
    and jp: "j < length (window_plan (length pages) window_size)"
    by (auto simp: list_all2_conv_all_nth)
  obtain s e where se: "window_plan (length pages) window_size ! j = (s, e)"
    by (cases "window_plan (length pages) window_size ! j")
  with jp have "(s, e) \<in> set (window_plan (length pages) window_size)"
    by (metis nth_mem)
  from window_plan_bounds [OF this] have b: "0 \<le> s" "s < e" "e \<le> int (length pages)" by auto
  from window_of_fields(1) [OF w [unfolded se] b] b show ?thesis by blast
qed

lemma map_py_slice: "map f (py_slice xs s e) = py_slice (map f xs) s e"
  by (simp add: py_slice_def drop_map take_map)

lemma sorted_wrt_py_slice: "sorted_wrt R xs \<Longrightarrow> sorted_wrt R (py_slice xs s e)"
  by (simp add: py_slice_def sorted_wrt_drop sorted_wrt_take)

lemma consecutive_tl: "consecutive (a # r) \<Longrightarrow> consecutive r"
  by (cases r) auto

lemma consecutive_drop: "consecutive xs \<Longrightarrow> consecutive (drop n xs)"
proof (induction n arbitrary: xs)
  case 0
  then show ?case by simp
next
  case (Suc n)
  then show ?case by (cases xs) (auto dest: consecutive_tl)
qed

lemma consecutive_take: "consecutive xs \<Longrightarrow> consecutive (take n xs)"
proof (induction xs arbitrary: n rule: consecutive.induct)
  case (1 a b r)
  from "1.prems" have b: "b = a + 1" and r: "consecutive (b # r)" by auto
  show ?case
  proof (cases n)
    case 0
    then show ?thesis by simp
  next
    case (Suc m)
    show ?thesis
    proof (cases m)
      case 0
      with Suc show ?thesis by simp
    next
      case (Suc k)
      from "1.IH" [OF r, of m] Suc have "consecutive (b # take k r)" by simp
      with b Suc \<open>n = Suc m\<close> show ?thesis by simp
    qed
  qed
qed (simp_all add: take_Cons split: nat.split)

lemma consecutive_upt: "consecutive (map int [a..<b])"
proof (induction "b - a" arbitrary: a)
  case 0
  then show ?case by simp
next
  case (Suc n)
  then have ab: "a < b" by simp
  show ?case
  proof (cases "Suc a < b")
    case True
    from Suc have "consecutive (map int [Suc a..<b])" by simp
    with ab True show ?thesis by (simp add: upt_conv_Cons)
  next
    case False
    with ab show ?thesis by (simp add: upt_conv_Cons)
  qed
qed

lemma consecutive_py_slice: "consecutive xs \<Longrightarrow> consecutive (py_slice xs s e)"
  by (simp add: py_slice_def consecutive_drop consecutive_take)

lemma sorted_upt_int: "sorted_wrt (<) (map int [a..<b])"
  by (simp add: sorted_wrt_map sorted_wrt_upt [unfolded ] strict_sorted_iff)

text \<open>
  C6 fails: a page without text is not summarised, so the windows range over the
  remaining pages. For a document of three pages whose second page is blank, the
  second window merges pages 1 and 3.
\<close>

theorem blank_page_window_counterexample:
  "note_windows (fst (generate_learning_note demo_env demo_note_request demo_notes_world)) =
     JList [window_json \<lparr>startPage = 1, endPage = 1, pageIndexes = [1], markdown = S ''### Pages''\<rparr>,
            window_json \<lparr>startPage = 1, endPage = 3, pageIndexes = [1, 3], markdown = S ''### Pages''\<rparr>] \<and>
   \<not> consecutive [1, 3]"
  by (simp add: note_eval note_windows_def)

text \<open>
  C6 as amended. In every generated note (one for which remote calls were made), the
  summarised pages are the document's pages with text, in order, and each window merges
  a contiguous range of them: its \<open>pageIndexes\<close> is a slice of their indexes and
  strictly increasing. It is a run of consecutive indexes when no page of the document
  is blank.
\<close>

theorem window_indexes_are_a_slice:
  assumes "generate_learning_note env payload w = (Inr doc, w')"
    and "calls w' \<noteq> calls w"
  shows "\<exists>f chunks pages windows created_at.
     uploads w (fileId payload) = Some f \<and> extract_page_chunks f = Inr chunks \<and>
     map index chunks = map int [1..<Suc (length chunks)] \<and>
     map index pages = map index (filter (\<lambda>c. strip (text' c) \<noteq> []) chunks) \<and>
     doc = note_record (fileId payload) created_at (utc_now env) (windowSize payload)
             pages windows (merge_markdown windows) \<and>
     (\<forall>win\<in>set windows.
        (\<exists>s e. 0 \<le> s \<and> s < e \<and> e \<le> int (length pages) \<and>
           pageIndexes win = py_slice (map index pages) s e) \<and>
        sorted_wrt (<) (pageIndexes win) \<and>
        ((\<forall>c\<in>set chunks. strip (text' c) \<noteq> []) \<longrightarrow> consecutive (pageIndexes win)))"
proof -
  have "\<exists>existing. regenerate_note env payload existing w = (Inr doc, w')"
  proof (cases "read env (note_files w) (fileId payload)")
    case (Inl e)
    with assms show ?thesis by (simp add: generate_learning_note_def)
  next
    case (Inr existing)
    show ?thesis
    proof (cases "\<exists>v. existing = Some v \<and> truthy v \<and> \<not> force payload")
      case True
      with assms Inr show ?thesis by (auto simp: generate_learning_note_def)
    next
      case False
      with assms Inr have "regenerate_note env payload existing w = (Inr doc, w')"
        by (auto simp: generate_learning_note_def split: option.splits if_splits)
      then show ?thesis ..
    qed
  qed
  then obtain existing where "regenerate_note env payload existing w = (Inr doc, w')" ..
  from regenerate_note_record [OF this] obtain f chunks pages tr windows tr' created_at where
    f: "uploads w (fileId payload) = Some f" "extract_page_chunks f = Inr chunks"
    and p: "summarize_pages env chunks [] (calls w) = (Inr pages, tr)" "pages \<noteq> []"
    and ws: "summarize_windows env pages (windowSize payload) tr = (Inr windows, tr')"
    and doc: "doc = note_record (fileId payload) created_at (utc_now env) (windowSize payload)
                      pages windows (merge_markdown windows)"
    by blast
  note ci = extract_page_chunks_indexes [OF f(2)]
  from summarize_pages_indexes [OF p(1)]
  have pi: "map index pages = map index (filter (\<lambda>c. strip (text' c) \<noteq> []) chunks)" by simp
  have "sorted_wrt (<) (map index chunks)"
    unfolding ci by (rule sorted_upt_int)
  then have "sorted_wrt (\<lambda>a b. index a < index b) chunks"
    by (simp add: sorted_wrt_map)
  then have "sorted_wrt (\<lambda>a b. index a < index b) (filter (\<lambda>c. strip (text' c) \<noteq> []) chunks)"
    by (rule sorted_wrt_filter)
  then have sp: "sorted_wrt (<) (map index pages)"
    unfolding pi by (simp add: sorted_wrt_map)
  have win: "(\<exists>s e. 0 \<le> s \<and> s < e \<and> e \<le> int (length pages) \<and>
           pageIndexes win = py_slice (map index pages) s e) \<and>
        sorted_wrt (<) (pageIndexes win) \<and>
        ((\<forall>c\<in>set chunks. strip (text' c) \<noteq> []) \<longrightarrow> consecutive (pageIndexes win))"
    if "win \<in> set windows" for win
  proof -
    from summarize_windows_slices [OF p(2) ws that] obtain s e where
      se: "0 \<le> s" "s < e" "e \<le> int (length pages)"
      and px: "pageIndexes win = py_slice (map index pages) s e"
      by (auto simp: map_py_slice)
    have "sorted_wrt (<) (pageIndexes win)"
      unfolding px using sp by (rule sorted_wrt_py_slice)
    moreover have "consecutive (pageIndexes win)" if "\<forall>c\<in>set chunks. strip (text' c) \<noteq> []"
    proof -
      from that have "filter (\<lambda>c. strip (text' c) \<noteq> []) chunks = chunks" by simp
      with pi ci have "map index pages = map int [1..<Suc (length chunks)]" by simp
      then have "consecutive (map index pages)" by (simp only: consecutive_upt)
      then show ?thesis unfolding px by (rule consecutive_py_slice)
    qed
    ultimately show ?thesis using se px by blast
  qed
  from f ci pi doc win show ?thesis by blast
qed

theorem window_indexes_are_a_slice_witness:
  "calls (snd (generate_learning_note demo_env demo_note_request demo_notes_world)) \<noteq>
     calls demo_notes_world \<and>
   (\<exists>doc pages windows created_at.
      fst (generate_learning_note demo_env demo_note_request demo_notes_world) = Inr doc \<and>
      doc = note_record (fileId demo_note_request) created_at (utc_now demo_env)
              (windowSize demo_note_request) pages windows (merge_markdown windows) \<and>
      (\<forall>win\<in>set windows. sorted_wrt (<) (pageIndexes win)))"
proof -
  obtain doc w' where g: "generate_learning_note demo_env demo_note_request demo_notes_world = (Inr doc, w')"
    and c: "calls w' \<noteq> calls demo_notes_world"
    by (simp add: note_eval)
  from window_indexes_are_a_slice [OF g c] g c show ?thesis by fastforce
qed

end
